theory Spec2Isabelle
  imports Main "HOL-Library.Sublist" "HOL-Library.Word"
begin

section \<open>Values exchanged with the outside\<close>

text \<open>
  A JavaScript error is represented by its \<open>message\<close>, the only part the program reads
  (\<open>error.message\<close> in every \<open>catch\<close>).
\<close>

datatype error = Error (message: string)

text \<open>
  What \<open>JSON.parse\<close> and \<open>express.json()\<close> deliver. Numbers are the integers;
  \<open>undefined\<close> is \<open>None\<close> of \<open>json option\<close>.
\<close>

datatype json = JNull | JBool bool | JNum int | JStr string
  | JArr "json list" | JObj "(string \<times> json) list"

type_synonym js_value = "json option"

text \<open>The truth value JavaScript gives a value under \<open>!\<close> and \<open>||\<close>.\<close>

fun truthy :: "js_value \<Rightarrow> bool" where
  "truthy None = False"
| "truthy (Some JNull) = False"
| "truthy (Some (JBool b)) = b"
| "truthy (Some (JNum n)) = (n \<noteq> 0)"
| "truthy (Some (JStr s)) = (s \<noteq> [])"
| "truthy (Some (JArr xs)) = True"
| "truthy (Some (JObj kvs)) = True"

text \<open>Decimal digits of a number, for template literals.\<close>

function dec :: "nat \<Rightarrow> string" where
  "dec n = (if n < 10 then [char_of (48 + n)] else dec (n div 10) @ [char_of (48 + n mod 10)])"
  by pat_completeness auto
termination
  by (relation "measure id") auto

declare dec.simps [simp del]

definition dec_int :: "int \<Rightarrow> string" where
  "dec_int i = (if i < 0 then ''-'' @ dec (nat (- i)) else dec (nat i))"

text \<open>
  \<open>String(v)\<close>, which a template literal \<open>${v}\<close> applies: an array joins its elements
  with commas, \<open>null\<close> elements as the empty string; an object is \<open>[object Object]\<close>.
\<close>

fun js_String :: "json \<Rightarrow> string" and js_join :: "json list \<Rightarrow> string" where
  "js_String JNull = ''null''"
| "js_String (JBool b) = (if b then ''true'' else ''false'')"
| "js_String (JNum n) = dec_int n"
| "js_String (JStr s) = s"
| "js_String (JArr xs) = js_join xs"
| "js_String (JObj kvs) = ''[object Object]''"
| "js_join [] = []"
| "js_join [x] = (if x = JNull then [] else js_String x)"
| "js_join (x # y # ys) = (if x = JNull then [] else js_String x) @ '','' @ js_join (y # ys)"

definition template :: "js_value \<Rightarrow> string" where
  "template v = (case v of None \<Rightarrow> ''undefined'' | Some j \<Rightarrow> js_String j)"

text \<open>\<open>xs.join(sep)\<close> on an array of strings.\<close>

fun join :: "string \<Rightarrow> string list \<Rightarrow> string" where
  "join sep [] = []"
| "join sep [x] = x"
| "join sep (x # y # ys) = x @ sep @ join sep (y # ys)"

type_synonym bytes = "8 word list"

section \<open>Data model\<close>

text \<open>
  \<open>userSchema\<close> and \<open>conversationSchema\<close>, with the fields they name and the
  timestamps. An \<open>ObjectId\<close> is a number, a date the clock in milliseconds.
\<close>

record preferences_t =
  speechStyle :: string
  favoriteTopics :: "string list"

record history_entry =
  date :: nat
  transcript :: string

record user =
  user_id :: nat
  phoneNumber :: string
  name :: string
  preferences :: preferences_t
  callHistory :: "history_entry list"
  createdAt :: nat
  updatedAt :: nat

record turn =
  speaker :: "string option"
  turn_message :: "string option"
  timestamp :: "nat option"

record conversation =
  conversation_id :: nat
  userId :: nat
  conversation_transcript :: "turn list"
  conversation_date :: nat
  conversation_createdAt :: nat
  conversation_updatedAt :: nat

text \<open>A recording descriptor of the telephony provider.\<close>

record recording =
  sid :: string
  mediaUrl :: string

section \<open>Requests sent to the providers\<close>

record call_config =
  systemPrompt :: string
  model :: string
  voice :: string
  temperature :: string
  firstSpeaker :: string
  medium :: json

record ultravox_request =
  url :: string
  http_method :: string
  content_type :: string
  x_api_key :: string
  payload :: call_config

record call_request =
  twiml :: string
  to_number :: string
  from_number :: string
  record_call :: bool
  recordingChannels :: string
  recordingStatusCallback :: string
  recordingStatusCallbackEvent :: "string list"

datatype http_reply = TransportError error | HttpResponse nat string

text \<open>
  The calls made to the outside, each with the time it was made at: the observable
  behaviour of the process.
\<close>

datatype io_event =
    RecordingsList nat string nat
  | AxiosGet nat string "string \<times> string"
  | UltravoxPost nat ultravox_request
  | CallsCreate nat call_request

text \<open>
  What \<open>console.log\<close> and \<open>console.error\<close> wrote: a line of text, a label with a
  value, or a label with the message of an error. The pictographs that open the
  messages of the source are left out.
\<close>

datatype log_entry = Log string | LogValue string js_value | LogError string string

text \<open>A callback registered with \<open>setTimeout\<close>: the call of \<open>saveRecording\<close>.\<close>

datatype task = SaveRecordingTask string string

section \<open>The process state and its environment\<close>

text \<open>
  The state the program reads and writes: the two collections, the local file system,
  the console, the pending \<open>setTimeout\<close> callbacks with the time each is due, and the
  clock in milliseconds. \<open>ops\<close> counts the calls made to the outside so far; \<open>uncaught\<close>
  holds the exceptions that reached the runtime. Only timers move the clock: a call to
  the outside takes no time.
\<close>

record world =
  clock :: nat
  next_id :: nat
  users :: "user list"
  conversations :: "conversation list"
  dirs :: "string list"
  files :: "string \<rightharpoonup> bytes"
  console :: "log_entry list"
  timers :: "(nat \<times> task) list"
  ops :: nat
  trace :: "io_event list"
  uncaught :: "error list"

text \<open>
  What the program does not decide: the configuration read from \<open>process.env\<close>, the
  error with which the constructor \<open>twilio(...)\<close> refuses that configuration, if it
  does, the answer of each provider to the \<open>n\<close>-th outside call, the faults of the
  storage layer and of the file system at the \<open>n\<close>-th outside call, and the library
  functions \<open>JSON.parse\<close> and the schema casts of Mongoose. A \<open>TransportError\<close> is a
  request that ends without a response. \<open>filter_fault\<close> and \<open>filter_match\<close> are the
  library's reading of a query filter that is not a string: whether it is refused, and
  which stored phone numbers it matches.
\<close>

record env =
  TWILIO_ACCOUNT_SID :: string
  TWILIO_AUTH_TOKEN :: string
  TWILIO_PHONE_NUMBER :: string
  ULTRAVOX_API_KEY :: string
  twilio_fault :: "error option"
  recordings_list :: "nat \<Rightarrow> string \<Rightarrow> error + recording list"
  axios_get :: "nat \<Rightarrow> string \<Rightarrow> string \<times> string \<Rightarrow> error + bytes"
  ultravox_reply :: "nat \<Rightarrow> ultravox_request \<Rightarrow> http_reply"
  calls_create :: "nat \<Rightarrow> call_request \<Rightarrow> error + string"
  db_fault :: "nat \<Rightarrow> error option"
  fs_fault :: "nat \<Rightarrow> error option"
  JSON_parse :: "string \<Rightarrow> error + json"
  castString :: "json \<Rightarrow> error + string"
  castTranscript :: "json \<Rightarrow> error + turn list"
  filter_fault :: "json \<Rightarrow> error option"
  filter_match :: "json \<Rightarrow> string \<Rightarrow> bool"

definition ULTRAVOX_API_URL :: string where
  "ULTRAVOX_API_URL = ''https://api.ultravox.ai/api/calls''"

definition console_log :: "string \<Rightarrow> world \<Rightarrow> world" where
  "console_log s w = w\<lparr>console := console w @ [Log s]\<rparr>"

definition console_error :: "string \<Rightarrow> string \<Rightarrow> world \<Rightarrow> world" where
  "console_error s m w = w\<lparr>console := console w @ [LogError s m]\<rparr>"

definition setTimeout :: "task \<Rightarrow> nat \<Rightarrow> world \<Rightarrow> world" where
  "setTimeout t delay w = w\<lparr>timers := timers w @ [(clock w + delay, t)]\<rparr>"

section \<open>Profile store\<close>

text \<open>\<open>User.findOne({ phoneNumber })\<close>: the first document with that phone number.\<close>

definition findOne :: "env \<Rightarrow> string \<Rightarrow> world \<Rightarrow> (error + user option) \<times> world" where
  "findOne e p w =
     (let w' = w\<lparr>ops := ops w + 1\<rparr> in
      case db_fault e (ops w) of
        Some err \<Rightarrow> (Inl err, w')
      | None \<Rightarrow> (Inr (find (\<lambda>u. phoneNumber u = p) (users w)), w'))"

text \<open>
  \<open>new User({ phoneNumber, name })\<close>: a fresh identifier and the defaults of the schema.
\<close>

definition new_User :: "string \<Rightarrow> string \<Rightarrow> world \<Rightarrow> user \<times> world" where
  "new_User p n w =
     (\<lparr>user_id = next_id w, phoneNumber = p, name = n,
       preferences = \<lparr>speechStyle = ''neutral'', favoriteTopics = []\<rparr>,
       callHistory = [], createdAt = clock w, updatedAt = clock w\<rparr>,
      w\<lparr>next_id := next_id w + 1\<rparr>)"

text \<open>
  \<open>user.save()\<close>: a stored document with the same identifier is replaced; a new one is
  inserted unless the unique index on \<open>phoneNumber\<close> refuses it.
\<close>

definition save_user :: "env \<Rightarrow> user \<Rightarrow> world \<Rightarrow> (error + user) \<times> world" where
  "save_user e u w =
     (let w' = w\<lparr>ops := ops w + 1\<rparr> in
      case db_fault e (ops w) of
        Some err \<Rightarrow> (Inl err, w')
      | None \<Rightarrow>
          if user_id u \<in> set (map user_id (users w)) then
            (let u' = u\<lparr>updatedAt := clock w\<rparr> in
             (Inr u', w'\<lparr>users := map (\<lambda>v. if user_id v = user_id u then u' else v) (users w)\<rparr>))
          else if phoneNumber u \<in> set (map phoneNumber (users w)) then
            (Inl (Error ''E11000 duplicate key error''), w')
          else
            (let u' = u\<lparr>createdAt := clock w, updatedAt := clock w\<rparr> in
             (Inr u', w'\<lparr>users := users w @ [u']\<rparr>)))"

definition getUser :: "env \<Rightarrow> string \<Rightarrow> world \<Rightarrow> (error + user) \<times> world" where
  "getUser e p w =
     (case findOne e p w of
        (Inl err, w1) \<Rightarrow> (Inl err, w1)
      | (Inr (Some u), w1) \<Rightarrow> (Inr u, w1)
      | (Inr None, w1) \<Rightarrow>
          (let w2 = console_log (''New user detected: '' @ p @ ''. Creating profile.'') w1;
               (u, w3) = new_User p (''User-'' @ p) w2
           in save_user e u w3))"

text \<open>
  \<open>getUser\<close> as \<open>POST /conversation\<close> calls it, with whatever truthy value the request
  carries. A string is the phone number. Any other value is the filter of the query as
  it stands, so that an object of query operators finds the first stored user it
  matches; when there is none, the new document gets the value as the schema casts it,
  under the name the template literal gives, and a value that cannot be cast is refused
  when the document is saved.
\<close>

definition findOne_value :: "env \<Rightarrow> json \<Rightarrow> world \<Rightarrow> (error + user option) \<times> world" where
  "findOne_value e j w =
     (case j of
        JStr s \<Rightarrow> findOne e s w
      | _ \<Rightarrow>
          (case filter_fault e j of
             Some err \<Rightarrow> (Inl err, w)
           | None \<Rightarrow>
               (let w' = w\<lparr>ops := ops w + 1\<rparr> in
                case db_fault e (ops w) of
                  Some err \<Rightarrow> (Inl err, w')
                | None \<Rightarrow> (Inr (find (\<lambda>u. filter_match e j (phoneNumber u)) (users w)), w'))))"

definition getUser_value :: "env \<Rightarrow> json \<Rightarrow> world \<Rightarrow> (error + user) \<times> world" where
  "getUser_value e j w =
     (case j of
        JStr s \<Rightarrow> getUser e s w
      | _ \<Rightarrow>
          (case findOne_value e j w of
             (Inl err, w1) \<Rightarrow> (Inl err, w1)
           | (Inr (Some u), w1) \<Rightarrow> (Inr u, w1)
           | (Inr None, w1) \<Rightarrow>
               (let w2 = console_log
                           (''New user detected: '' @ js_String j @ ''. Creating profile.'') w1
                in case castString e j of
                     Inl err \<Rightarrow> (Inl err, w2\<lparr>next_id := next_id w2 + 1\<rparr>)
                   | Inr s \<Rightarrow>
                       (let (u, w3) = new_User s (''User-'' @ js_String j) w2
                        in save_user e u w3))))"

section \<open>Voice-session initiator\<close>

definition generateSystemPrompt :: "user \<Rightarrow> string" where
  "generateSystemPrompt u =
     ''When the user accepts the call, wait for them to speak. '' @ [CHR 0x0A] @
     ''You talk slow. You speak slow. You speak like a normal conversation. '' @ [CHR 0x0A] @
     ''You do not repeat the same style of remarks; keep it fresh with each response. '' @ [CHR 0x0A] @
     ''Every sentence is brand new. Keep replies down to 1 to 3 sentences.'' @ [CHR 0x0A] @
     ''Speak in a '' @ speechStyle (preferences u) @ '' manner. '' @ [CHR 0x0A] @
     ''Try to talk about: '' @ join '', '' (favoriteTopics (preferences u)) @ ''.''"

text \<open>
  How the promise of an asynchronous call ends. \<open>Unsettled\<close>: an exception thrown inside
  an event listener, which goes to the runtime and leaves the promise pending, so that
  the awaiting caller is never resumed.
\<close>

datatype 'a settled = Resolved 'a | Rejected error | Unsettled error

text \<open>
  The configuration of lines 82 to 89, with the number 0.3 as its text, and the request
  of lines 92 to 98 and 108.
\<close>

definition ULTRAVOX_CALL_CONFIG :: "user \<Rightarrow> call_config" where
  "ULTRAVOX_CALL_CONFIG u =
     \<lparr>systemPrompt = generateSystemPrompt u, model = ''fixie-ai/ultravox'',
      voice = ''Mark'', temperature = ''0.3'', firstSpeaker = ''FIRST_SPEAKER_USER'',
      medium = JObj [(''twilio'', JObj [])]\<rparr>"

definition ultravox_request_of :: "env \<Rightarrow> user \<Rightarrow> ultravox_request" where
  "ultravox_request_of e u =
     \<lparr>url = ULTRAVOX_API_URL, http_method = ''POST'',
      content_type = ''application/json'', x_api_key = ULTRAVOX_API_KEY e,
      payload = ULTRAVOX_CALL_CONFIG u\<rparr>"

text \<open>
  \<open>createUltravoxCall\<close>: the \<open>error\<close> event rejects; the \<open>end\<close> event resolves with
  \<open>JSON.parse(data)\<close>, whatever the status of the response, and \<open>JSON.parse\<close> throws
  inside that listener.
\<close>

definition createUltravoxCall :: "env \<Rightarrow> user \<Rightarrow> world \<Rightarrow> json settled \<times> world" where
  "createUltravoxCall e u w =
     (let request = ultravox_request_of e u;
          w1 = w\<lparr>ops := ops w + 1, trace := trace w @ [UltravoxPost (clock w) request]\<rparr>
      in case ultravox_reply e (ops w) request of
           TransportError err \<Rightarrow> (Rejected err, w1)
         | HttpResponse status_code data \<Rightarrow>
             (case JSON_parse e data of
                Inl err \<Rightarrow> (Unsettled err, w1)
              | Inr v \<Rightarrow> (Resolved v, w1)))"

section \<open>Recording acquisition worker\<close>

definition existsSync :: "string \<Rightarrow> world \<Rightarrow> bool" where
  "existsSync path w = (path \<in> set (dirs w))"

definition mkdirSync :: "env \<Rightarrow> string \<Rightarrow> world \<Rightarrow> (error + unit) \<times> world" where
  "mkdirSync e path w =
     (let w' = w\<lparr>ops := ops w + 1\<rparr> in
      case fs_fault e (ops w) of
        Some err \<Rightarrow> (Inl err, w')
      | None \<Rightarrow> (Inr (), w'\<lparr>dirs := dirs w @ [path]\<rparr>))"

definition writeFileSync :: "env \<Rightarrow> string \<Rightarrow> bytes \<Rightarrow> world \<Rightarrow> (error + unit) \<times> world" where
  "writeFileSync e path data w =
     (let w' = w\<lparr>ops := ops w + 1\<rparr> in
      case fs_fault e (ops w) of
        Some err \<Rightarrow> (Inl err, w')
      | None \<Rightarrow> (Inr (), w'\<lparr>files := (files w)(path \<mapsto> data)\<rparr>))"

text \<open>
  The \<open>try\<close> block of \<open>saveRecording\<close> once the list is not empty, in the three
  stages of lines 128 to 139, 141 to 148 and 150 to 152: fetch the media of the
  descriptor, write it under \<open>./recordings\<close>, and append the note to the call history.
\<close>

definition fetch_recording :: "env \<Rightarrow> recording \<Rightarrow> world \<Rightarrow> (error + bytes) \<times> world" where
  "fetch_recording e rec w =
     (let recordingUrl = mediaUrl rec @ ''.mp3'';
          w1 = console_log (''Downloading recording from: '' @ recordingUrl) w;
          auth = (TWILIO_ACCOUNT_SID e, TWILIO_AUTH_TOKEN e)
      in (axios_get e (ops w1) recordingUrl auth,
          w1\<lparr>ops := ops w1 + 1, trace := trace w1 @ [AxiosGet (clock w1) recordingUrl auth]\<rparr>))"

definition write_recording ::
    "env \<Rightarrow> recording \<Rightarrow> bytes \<Rightarrow> world \<Rightarrow> (error + string) \<times> world" where
  "write_recording e rec data w =
     (case (if \<not> existsSync ''./recordings'' w then mkdirSync e ''./recordings'' w
            else (Inr (), w)) of
        (Inl err, w1) \<Rightarrow> (Inl err, w1)
      | (Inr _, w1) \<Rightarrow>
          (let filePath = ''./recordings/'' @ sid rec @ ''.mp3'' in
           case writeFileSync e filePath data w1 of
             (Inl err, w2) \<Rightarrow> (Inl err, w2)
           | (Inr _, w2) \<Rightarrow> (Inr filePath, console_log (''Recording saved: '' @ filePath) w2)))"

definition append_history :: "env \<Rightarrow> string \<Rightarrow> string \<Rightarrow> world \<Rightarrow> (error + unit) \<times> world" where
  "append_history e p filePath w =
     (case getUser e p w of
        (Inl err, w1) \<Rightarrow> (Inl err, w1)
      | (Inr u, w1) \<Rightarrow>
          (let u' = u\<lparr>callHistory := callHistory u @
                      [\<lparr>date = clock w1, transcript = ''Recording saved at '' @ filePath\<rparr>]\<rparr>
           in case save_user e u' w1 of
                (Inl err, w2) \<Rightarrow> (Inl err, w2)
              | (Inr _, w2) \<Rightarrow> (Inr (), w2)))"

definition download_and_persist ::
    "env \<Rightarrow> recording \<Rightarrow> string \<Rightarrow> world \<Rightarrow> (error + unit) \<times> world" where
  "download_and_persist e rec p w =
     (case fetch_recording e rec w of
        (Inl err, w1) \<Rightarrow> (Inl err, w1)
      | (Inr data, w1) \<Rightarrow>
          (case write_recording e rec data w1 of
             (Inl err, w2) \<Rightarrow> (Inl err, w2)
           | (Inr filePath, w2) \<Rightarrow> append_history e p filePath w2))"

text \<open>
  The \<open>try\<close> block of \<open>saveRecording\<close>. The awaited 60000 ms timer moves the clock,
  and nothing else runs in between; the list call asks for at most one descriptor
  (\<open>limit: 1\<close>).
\<close>

definition saveRecording_try ::
    "env \<Rightarrow> string \<Rightarrow> string \<Rightarrow> world \<Rightarrow> (error + unit) \<times> world" where
  "saveRecording_try e callSid p w =
     (let w1 = console_log ''Fetching recording...'' w in
      case twilio_fault e of
        Some err \<Rightarrow> (Inl err, w1)
      | None \<Rightarrow>
          (let w2 = w1\<lparr>clock := clock w1 + 60000\<rparr>;
               w3 = w2\<lparr>ops := ops w2 + 1,
                       trace := trace w2 @ [RecordingsList (clock w2) callSid 1]\<rparr>
           in case recordings_list e (ops w2) callSid of
                Inl err \<Rightarrow> (Inl err, w3)
              | Inr answer \<Rightarrow>
                  (let recordings = take 1 answer in
                   if length recordings = 0 then
                     (let w4 = console_log ''No recording found. Retrying in 30 seconds...'' w3
                      in (Inr (), setTimeout (SaveRecordingTask callSid p) 30000 w4))
                   else download_and_persist e (recordings ! 0) p w3)))"

text \<open>
  \<open>saveRecording\<close> with its \<open>catch\<close>. The result is how the promise of the asynchronous
  function settles: \<open>Inl\<close> would be a rejection.
\<close>

definition saveRecording ::
    "env \<Rightarrow> string \<Rightarrow> string \<Rightarrow> world \<Rightarrow> (error + unit) \<times> world" where
  "saveRecording e callSid p w =
     (case saveRecording_try e callSid p w of
        (Inl err, w') \<Rightarrow> (Inr (), console_error ''Error saving recording:'' (message err) w')
      | (Inr _, w') \<Rightarrow> (Inr (), w'))"

section \<open>Call placement\<close>

definition DESTINATION_PHONE_NUMBER :: string where
  "DESTINATION_PHONE_NUMBER = ''+17206035208''"

text \<open>
  Lines 170 to 184 of \<open>main\<close>: originate the call that streams to \<open>joinUrl\<close> and
  register the worker.
\<close>

definition place_call :: "env \<Rightarrow> js_value \<Rightarrow> world \<Rightarrow> unit settled \<times> world" where
  "place_call e joinUrl w =
     (case twilio_fault e of
        Some err \<Rightarrow> (Rejected err, w)
      | None \<Rightarrow>
          (let w1 = console_log ''Initiating Twilio call...'' w;
               request =
                 \<lparr>twiml = ''<Response><Connect><Stream url='' @ [CHR 0x22] @
                           template joinUrl @ [CHR 0x22] @ ''/></Connect></Response>'',
                  to_number = DESTINATION_PHONE_NUMBER,
                  from_number = TWILIO_PHONE_NUMBER e,
                  record_call = True,
                  recordingChannels = ''dual'',
                  recordingStatusCallback = ''https://yourserver.com/recording-status'',
                  recordingStatusCallbackEvent = [''in-progress'', ''completed'']\<rparr>;
               w2 = w1\<lparr>ops := ops w1 + 1,
                       trace := trace w1 @ [CallsCreate (clock w1) request]\<rparr>
           in case calls_create e (ops w1) request of
                Inl err \<Rightarrow> (Rejected err, w2)
              | Inr call_sid \<Rightarrow>
                  (let w3 = console_log (''Call started: '' @ call_sid) w2
                   in (Resolved (),
                       setTimeout (SaveRecordingTask call_sid DESTINATION_PHONE_NUMBER)
                         60000 w3))))"

text \<open>
  The \<open>try\<close> block of \<open>main\<close>. Destructuring \<open>{ joinUrl }\<close> throws on \<open>null\<close> and gives
  \<open>undefined\<close> on anything that has no such property.
\<close>

definition main_try :: "env \<Rightarrow> world \<Rightarrow> unit settled \<times> world" where
  "main_try e w =
     (let w1 = console_log ''Fetching user profile...'' w in
      case getUser e DESTINATION_PHONE_NUMBER w1 of
        (Inl err, w2) \<Rightarrow> (Rejected err, w2)
      | (Inr u, w2) \<Rightarrow>
          (let w3 = console_log ''Creating Ultravox call...'' w2 in
           case createUltravoxCall e u w3 of
             (Rejected err, w4) \<Rightarrow> (Rejected err, w4)
           | (Unsettled err, w4) \<Rightarrow> (Unsettled err, w4)
           | (Resolved v, w4) \<Rightarrow>
               if v = JNull then
                 (Rejected (Error ''Cannot destructure property joinUrl of null''), w4)
               else
                 (let joinUrl = (case v of JObj kvs \<Rightarrow> map_of kvs ''joinUrl'' | _ \<Rightarrow> None);
                      w5 = w4\<lparr>console := console w4 @ [LogValue ''Got joinUrl:'' joinUrl]\<rparr>
                  in place_call e joinUrl w5)))"

definition main :: "env \<Rightarrow> world \<Rightarrow> world" where
  "main e w =
     (case main_try e w of
        (Resolved _, w') \<Rightarrow> w'
      | (Rejected err, w') \<Rightarrow> console_error ''Main execution failed:'' (message err) w'
      | (Unsettled err, w') \<Rightarrow> w'\<lparr>uncaught := uncaught w' @ [err]\<rparr>)"

section \<open>HTTP routes\<close>

datatype response_body =
    UserBody user
  | ErrorBody string
  | ConversationBody string conversation

record response =
  status :: nat
  body :: response_body

text \<open>\<open>app.get('/user/:phoneNumber')\<close>; \<open>res.json\<close> answers with status 200.\<close>

definition get_user :: "env \<Rightarrow> string \<Rightarrow> world \<Rightarrow> response \<times> world" where
  "get_user e p w =
     (case getUser e p w of
        (Inr u, w') \<Rightarrow> (\<lparr>status = 200, body = UserBody u\<rparr>, w')
      | (Inl err, w') \<Rightarrow> (\<lparr>status = 500, body = ErrorBody (message err)\<rparr>, w'))"

text \<open>
  The cast of a request value to the transcript of the schema, an array of turns. An
  array of objects whose \<open>speaker\<close> and \<open>message\<close>, where present, are strings and whose
  \<open>timestamp\<close>, where present, is a number of milliseconds is read turn by turn, other
  properties being dropped; what the library does with any other value is left to
  \<open>castTranscript\<close>. \<open>json_of_turns\<close> is a transcript as a request carries it.
\<close>

definition string_field :: "js_value \<Rightarrow> string option option" where
  "string_field v =
     (case v of None \<Rightarrow> Some None | Some (JStr s) \<Rightarrow> Some (Some s) | Some _ \<Rightarrow> None)"

definition date_field :: "js_value \<Rightarrow> nat option option" where
  "date_field v =
     (case v of
        None \<Rightarrow> Some None
      | Some (JNum n) \<Rightarrow> (if 0 \<le> n then Some (Some (nat n)) else None)
      | Some _ \<Rightarrow> None)"

definition turn_of_json :: "json \<Rightarrow> turn option" where
  "turn_of_json j =
     (case j of
        JObj kvs \<Rightarrow>
          (case (string_field (map_of kvs ''speaker''), string_field (map_of kvs ''message''),
                 date_field (map_of kvs ''timestamp'')) of
             (Some s, Some m, Some t) \<Rightarrow> Some \<lparr>speaker = s, turn_message = m, timestamp = t\<rparr>
           | _ \<Rightarrow> None)
      | _ \<Rightarrow> None)"

definition turns_of_json :: "json \<Rightarrow> turn list option" where
  "turns_of_json t = (case t of JArr xs \<Rightarrow> those (map turn_of_json xs) | _ \<Rightarrow> None)"

definition cast_transcript :: "env \<Rightarrow> json \<Rightarrow> error + turn list" where
  "cast_transcript e t =
     (case turns_of_json t of Some ts \<Rightarrow> Inr ts | None \<Rightarrow> castTranscript e t)"

definition json_of_turn :: "turn \<Rightarrow> json" where
  "json_of_turn t =
     JObj ((case speaker t of None \<Rightarrow> [] | Some s \<Rightarrow> [(''speaker'', JStr s)]) @
           (case turn_message t of None \<Rightarrow> [] | Some m \<Rightarrow> [(''message'', JStr m)]) @
           (case timestamp t of None \<Rightarrow> [] | Some n \<Rightarrow> [(''timestamp'', JNum (int n))]))"

definition json_of_turns :: "turn list \<Rightarrow> json" where
  "json_of_turns ts = JArr (map json_of_turn ts)"

text \<open>
  \<open>new Conversation({ userId, transcript })\<close>: the transcript goes through the cast of
  the schema. \<open>Inl\<close> is the validation error with which \<open>save\<close> will reject.
\<close>

definition new_Conversation ::
    "env \<Rightarrow> nat \<Rightarrow> json \<Rightarrow> world \<Rightarrow> (error + conversation) \<times> world" where
  "new_Conversation e uid t w =
     (let w' = w\<lparr>next_id := next_id w + 1\<rparr> in
      case cast_transcript e t of
        Inl err \<Rightarrow> (Inl err, w')
      | Inr turns \<Rightarrow>
          (Inr \<lparr>conversation_id = next_id w, userId = uid, conversation_transcript = turns,
                conversation_date = clock w, conversation_createdAt = clock w,
                conversation_updatedAt = clock w\<rparr>, w'))"

definition save_conversation ::
    "env \<Rightarrow> conversation \<Rightarrow> world \<Rightarrow> (error + conversation) \<times> world" where
  "save_conversation e c w =
     (let w' = w\<lparr>ops := ops w + 1\<rparr> in
      case db_fault e (ops w) of
        Some err \<Rightarrow> (Inl err, w')
      | None \<Rightarrow>
          (let c' = c\<lparr>conversation_createdAt := clock w, conversation_updatedAt := clock w\<rparr>
           in (Inr c', w'\<lparr>conversations := conversations w @ [c']\<rparr>)))"

text \<open>
  \<open>app.post('/conversation')\<close>. \<open>conversation_try\<close> is the \<open>try\<close> block of the handler,
  and \<open>post_conversation\<close> the handler on a request body that is an object, given as
  the list of its properties. Line 202 destructures \<open>req.body\<close> before the \<open>try\<close>: when
  the body parser has left it undefined, the handler throws there and answers nothing,
  which is \<open>Inl\<close> in \<open>conversation_handler\<close>.
\<close>

definition conversation_try ::
    "env \<Rightarrow> json \<Rightarrow> json \<Rightarrow> world \<Rightarrow> (error + conversation) \<times> world" where
  "conversation_try e phone t w =
     (case getUser_value e phone w of
        (Inl err, w1) \<Rightarrow> (Inl err, w1)
      | (Inr u, w1) \<Rightarrow>
          (case new_Conversation e (user_id u) t w1 of
             (Inl err, w2) \<Rightarrow> (Inl err, w2)
           | (Inr c, w2) \<Rightarrow> save_conversation e c w2))"

definition post_conversation ::
    "env \<Rightarrow> (string \<times> json) list \<Rightarrow> world \<Rightarrow> response \<times> world" where
  "post_conversation e req_body w =
     (let phone = map_of req_body ''phoneNumber'';
          transcript_value = map_of req_body ''transcript''
      in if \<not> truthy phone \<or> \<not> truthy transcript_value then
           (\<lparr>status = 400, body = ErrorBody ''Phone number and transcript required.''\<rparr>, w)
         else
           (case conversation_try e (the phone) (the transcript_value) w of
              (Inr c, w') \<Rightarrow>
                (\<lparr>status = 201, body = ConversationBody ''Conversation saved.'' c\<rparr>, w')
            | (Inl err, w') \<Rightarrow> (\<lparr>status = 500, body = ErrorBody (message err)\<rparr>, w')))"

definition conversation_handler ::
    "env \<Rightarrow> (string \<times> json) list option \<Rightarrow> world \<Rightarrow> (error + response) \<times> world" where
  "conversation_handler e req_body w =
     (case req_body of
        None \<Rightarrow> (Inl (Error ''Cannot destructure property phoneNumber of undefined''), w)
      | Some b \<Rightarrow> (case post_conversation e b w of (r, w') \<Rightarrow> (Inr r, w')))"

section \<open>Timers\<close>

text \<open>
  The pending callback that is due first, the earlier registered one among equals.
\<close>

definition next_timer :: "(nat \<times> task) list \<Rightarrow> (nat \<times> task) option" where
  "next_timer ts =
     (case ts of
        [] \<Rightarrow> None
      | t # ts' \<Rightarrow> Some (fold (\<lambda>x m. if fst x < fst m then x else m) ts' t))"

text \<open>
  One turn of the event loop on the timer queue: the callback runs no earlier than its
  due time. The promise that \<open>saveRecording\<close> returns is not awaited.
\<close>

definition run_timer :: "env \<Rightarrow> world \<Rightarrow> world" where
  "run_timer e w =
     (case next_timer (timers w) of
        None \<Rightarrow> w
      | Some (due, SaveRecordingTask callSid p) \<Rightarrow>
          snd (saveRecording e callSid p
                 (w\<lparr>clock := max (clock w) due,
                    timers := remove1 (due, SaveRecordingTask callSid p) (timers w)\<rparr>)))"

fun run_timers :: "env \<Rightarrow> nat \<Rightarrow> world \<Rightarrow> world" where
  "run_timers e 0 w = w"
| "run_timers e (Suc n) w = run_timers e n (run_timer e w)"

text \<open>The times of the polls of the telephony provider for a call.\<close>

fun poll_times :: "string \<Rightarrow> io_event list \<Rightarrow> nat list" where
  "poll_times c [] = []"
| "poll_times c (RecordingsList t c' l # evs) =
     (if c' = c then t # poll_times c evs else poll_times c evs)"
| "poll_times c (ev # evs) = poll_times c evs"

section \<open>The system as a whole\<close>

text \<open>
  What can happen to the process: a request on either route, the start-up call of
  \<open>main\<close>, a timer firing, time passing. Each runs to its end before the next.
\<close>

datatype action =
    GetUserReq string
  | PostConversationReq "(string \<times> json) list"
  | Startup
  | TimerFires
  | TimePasses nat

definition exec :: "env \<Rightarrow> action \<Rightarrow> world \<Rightarrow> world" where
  "exec e a w =
     (case a of
        GetUserReq p \<Rightarrow> snd (get_user e p w)
      | PostConversationReq b \<Rightarrow> snd (post_conversation e b w)
      | Startup \<Rightarrow> main e w
      | TimerFires \<Rightarrow> run_timer e w
      | TimePasses d \<Rightarrow> w\<lparr>clock := clock w + d\<rparr>)"

definition initial :: world where
  "initial = \<lparr>clock = 0, next_id = 0, users = [], conversations = [], dirs = [],
              files = Map.empty, console = [], timers = [], ops = 0, trace = [],
              uncaught = []\<rparr>"

inductive reachable :: "world \<Rightarrow> bool" where
  reachable_initial: "reachable initial"
| reachable_exec: "reachable w \<Longrightarrow> reachable (exec e a w)"

text \<open>
  The store is well formed: phone numbers and identifiers are unique, and every
  identifier in use is below the next fresh one.
\<close>

definition store_ok :: "world \<Rightarrow> bool" where
  "store_ok w \<longleftrightarrow>
     distinct (map phoneNumber (users w)) \<and> distinct (map user_id (users w)) \<and>
     (\<forall>u \<in> set (users w). user_id u < next_id w)"

text \<open>
  From one state to a later one no user is lost, none changes its phone number, and
  each call history only grows at its end.
\<close>

definition history_extends :: "world \<Rightarrow> world \<Rightarrow> bool" where
  "history_extends w w' \<longleftrightarrow>
     (\<forall>u \<in> set (users w). \<exists>u' \<in> set (users w').
        user_id u' = user_id u \<and> phoneNumber u' = phoneNumber u \<and>
        prefix (callHistory u) (callHistory u'))"

text \<open>A step that keeps a well-formed store well formed and only extends it.\<close>

definition evolves :: "world \<Rightarrow> world \<Rightarrow> bool" where
  "evolves w w' \<longleftrightarrow> (store_ok w \<longrightarrow> store_ok w' \<and> history_extends w w')"

section \<open>Reading the observable behaviour\<close>

text \<open>
  The calls originated, the times they were originated at, and the errors written to
  the console.
\<close>

fun calls_placed :: "io_event list \<Rightarrow> call_request list" where
  "calls_placed [] = []"
| "calls_placed (CallsCreate t r # evs) = r # calls_placed evs"
| "calls_placed (ev # evs) = calls_placed evs"

fun call_times :: "io_event list \<Rightarrow> nat list" where
  "call_times [] = []"
| "call_times (CallsCreate t r # evs) = t # call_times evs"
| "call_times (ev # evs) = call_times evs"

fun errors_logged :: "log_entry list \<Rightarrow> (string \<times> string) list" where
  "errors_logged [] = []"
| "errors_logged (LogError s m # ls) = (s, m) # errors_logged ls"
| "errors_logged (l # ls) = errors_logged ls"




text \<open>The call history stored for a phone number, empty when there is no such user.\<close>

definition history_of :: "string \<Rightarrow> world \<Rightarrow> history_entry list" where
  "history_of p w =
     (case find (\<lambda>u. phoneNumber u = p) (users w) of
        None \<Rightarrow> []
      | Some u \<Rightarrow> callHistory u)"

section \<open>Sample environments\<close>

text \<open>
  Concrete surroundings on which the theorems below are instantiated. In \<open>sample_env\<close>
  every provider answers, nothing fails, and no recording ever appears.
\<close>

definition join_body :: string where
  \<open>join_body = ''{"joinUrl":"wss://voice.example/join"}''\<close>

definition denied_body :: string where
  \<open>denied_body = ''{"detail":"Invalid API key"}''\<close>

definition sample_parse :: "string \<Rightarrow> error + json" where
  "sample_parse s =
     (if s = join_body then Inr (JObj [(''joinUrl'', JStr ''wss://voice.example/join'')])
      else if s = denied_body then Inr (JObj [(''detail'', JStr ''Invalid API key'')])
      else Inl (Error ''Unexpected token in JSON''))"

definition sample_env :: env where
  "sample_env =
     \<lparr>TWILIO_ACCOUNT_SID = ''AC0'', TWILIO_AUTH_TOKEN = ''secret'',
      TWILIO_PHONE_NUMBER = ''+15550100'', ULTRAVOX_API_KEY = ''key'',
      twilio_fault = None,
      recordings_list = (\<lambda>n c. Inr []),
      axios_get = (\<lambda>n u a. Inr [1, 2, 3]),
      ultravox_reply = (\<lambda>n r. HttpResponse 200 join_body),
      calls_create = (\<lambda>n r. Inr ''CA1''),
      db_fault = (\<lambda>n. None),
      fs_fault = (\<lambda>n. None),
      JSON_parse = sample_parse,
      castString = (\<lambda>j. case j of JNum n \<Rightarrow> Inr (dec_int n)
                          | _ \<Rightarrow> Inl (Error ''Cast to string failed'')),
      castTranscript = (\<lambda>t. Inl (Error ''Conversation validation failed'')),
      filter_fault = (\<lambda>j. None),
      filter_match = (\<lambda>j s. j = JObj [(''$ne'', JNull)])\<rparr>"

text \<open>The voice-session provider refuses the key with status 401 and a JSON body.\<close>

definition denied_env :: env where
  "denied_env = sample_env\<lparr>ultravox_reply := (\<lambda>n r. HttpResponse 401 denied_body)\<rparr>"

text \<open>The voice-session provider cannot be reached.\<close>

definition offline_env :: env where
  "offline_env =
     sample_env\<lparr>ultravox_reply := (\<lambda>n r. TransportError (Error ''connect ECONNREFUSED''))\<rparr>"

text \<open>The telephony provider has one recording of every call.\<close>

definition ready_env :: env where
  "ready_env =
     sample_env\<lparr>recordings_list :=
       (\<lambda>n c. Inr [\<lparr>sid = ''RE1'', mediaUrl = ''https://api.twilio.example/Recordings/RE1''\<rparr>])\<rparr>"






text \<open>The storage layer is down.\<close>

definition down_env :: env where
  "down_env = sample_env\<lparr>db_fault := (\<lambda>n. Some (Error ''buffering timed out''))\<rparr>"

section \<open>Facts about the profile store\<close>

lemma find_None_phone: "find (\<lambda>u. phoneNumber u = p) us = None \<longleftrightarrow> p \<notin> phoneNumber ` set us"
  by (auto simp: find_None_iff)

lemma find_Some_phone: "find (\<lambda>u. phoneNumber u = p) us = Some u \<Longrightarrow> u \<in> set us \<and> phoneNumber u = p"
  by (auto simp: find_Some_iff)

lemma getUser_found:
  assumes "db_fault e (ops w) = None" "find (\<lambda>u. phoneNumber u = p) (users w) = Some u"
  shows "getUser e p w = (Inr u, w\<lparr>ops := ops w + 1\<rparr>)"
  using assms by (simp add: getUser_def findOne_def)

lemma getUser_created:
  assumes "db_fault e (ops w) = None" "db_fault e (ops w + 1) = None"
    and "p \<notin> phoneNumber ` set (users w)"
    and "\<forall>u \<in> set (users w). user_id u < next_id w"
  shows "getUser e p w =
     (let u = \<lparr>user_id = next_id w, phoneNumber = p, name = ''User-'' @ p,
                preferences = \<lparr>speechStyle = ''neutral'', favoriteTopics = []\<rparr>,
                callHistory = [], createdAt = clock w, updatedAt = clock w\<rparr>
      in (Inr u, w\<lparr>ops := ops w + 2, next_id := next_id w + 1, users := users w @ [u],
              console := console w @ [Log (''New user detected: '' @ p @ ''. Creating profile.'')]\<rparr>))"
proof -
  have f: "find (\<lambda>u. phoneNumber u = p) (users w) = None"
    using assms(3) by (simp add: find_None_phone)
  have fresh: "next_id w \<notin> user_id ` set (users w)"
    using assms(4) by auto
  show ?thesis
    using assms(1,2,3) f fresh
    by (simp add: getUser_def findOne_def new_User_def save_user_def console_log_def Let_def)
qed

lemma history_extends_refl: "users w' = users w \<Longrightarrow> history_extends w w'"
  by (auto simp: history_extends_def)

lemma history_extends_trans:
  "history_extends w w' \<Longrightarrow> history_extends w' w'' \<Longrightarrow> history_extends w w''"
  unfolding history_extends_def
  by (metis (no_types, lifting) prefix_order.order_trans)

lemma evolves_same: "users w' = users w \<Longrightarrow> next_id w \<le> next_id w' \<Longrightarrow> evolves w w'"
  by (fastforce simp: evolves_def store_ok_def history_extends_refl)

lemma evolves_trans: "evolves w w' \<Longrightarrow> evolves w' w'' \<Longrightarrow> evolves w w''"
  by (auto simp: evolves_def intro: history_extends_trans)

lemma findOne_users:
  "findOne e p w = (r, w') \<Longrightarrow> users w' = users w \<and> next_id w' = next_id w"
  by (auto simp: findOne_def Let_def split: option.splits)

lemma save_user_new:
  assumes "store_ok w" "user_id u = next_id w" "save_user e u w = (r, w')"
  shows "users w' = users w \<or>
         (phoneNumber u \<notin> phoneNumber ` set (users w) \<and>
          (\<exists>u'. r = Inr u' \<and> users w' = users w @ [u'] \<and> user_id u' = user_id u \<and>
                phoneNumber u' = phoneNumber u \<and> callHistory u' = callHistory u))"
    and "next_id w' = next_id w"
proof -
  have fresh: "user_id u \<notin> user_id ` set (users w)"
    using assms(1,2) by (auto simp: store_ok_def)
  show "users w' = users w \<or>
         (phoneNumber u \<notin> phoneNumber ` set (users w) \<and>
          (\<exists>u'. r = Inr u' \<and> users w' = users w @ [u'] \<and> user_id u' = user_id u \<and>
                phoneNumber u' = phoneNumber u \<and> callHistory u' = callHistory u))"
    using assms(3) fresh
    by (auto simp: save_user_def Let_def split: option.splits if_splits)
  show "next_id w' = next_id w"
    using assms(3) by (auto simp: save_user_def Let_def split: option.splits if_splits)
qed

lemma map_replace_by_id:
  assumes "distinct (map user_id us)" "u \<in> set us" "user_id u' = user_id u"
  shows "map (\<lambda>v. if user_id v = user_id u then u' else v) us = map (\<lambda>v. if v = u then u' else v) us"
  using assms by (auto simp: distinct_map inj_on_def)

lemma save_user_push:
  assumes ok: "store_ok w" and mem: "u \<in> set (users w)"
    and sv: "save_user e (u\<lparr>callHistory := callHistory u @ [x]\<rparr>) w = (r, w')"
  shows "store_ok w' \<and> history_extends w w'"
proof (cases "db_fault e (ops w)")
  case (Some err)
  then have "users w' = users w" "next_id w' = next_id w"
    using sv by (auto simp: save_user_def Let_def)
  then show ?thesis using ok by (auto simp: store_ok_def history_extends_refl)
next
  case None
  define v where "v = u\<lparr>callHistory := callHistory u @ [x], updatedAt := clock w\<rparr>"
  have d: "distinct (map user_id (users w))" using ok by (simp add: store_ok_def)
  have "users w' = map (\<lambda>z. if user_id z = user_id u then v else z) (users w)"
    and nx: "next_id w' = next_id w"
    using sv None mem by (auto simp: save_user_def Let_def v_def)
  moreover have "user_id v = user_id u" by (simp add: v_def)
  ultimately have us: "users w' = map (\<lambda>z. if z = u then v else z) (users w)"
    using map_replace_by_id [OF d mem, of v] by simp
  have ph: "map phoneNumber (users w') = map phoneNumber (users w)"
    and ids: "map user_id (users w') = map user_id (users w)"
    by (auto simp: us v_def)
  have so: "store_ok w'"
    using ok ph ids nx unfolding store_ok_def
    by (metis (no_types, lifting) image_iff list.set_map)
  have "history_extends w w'"
    unfolding history_extends_def
  proof
    fix z assume z: "z \<in> set (users w)"
    let ?z' = "if z = u then v else z"
    have "?z' \<in> set (users w')" using z by (auto simp: us)
    moreover have "user_id ?z' = user_id z \<and> phoneNumber ?z' = phoneNumber z \<and>
        prefix (callHistory z) (callHistory ?z')"
      by (auto simp: v_def)
    ultimately show "\<exists>u'\<in>set (users w'). user_id u' = user_id z \<and> phoneNumber u' = phoneNumber z \<and>
        prefix (callHistory z) (callHistory u')"
      by blast
  qed
  with so show ?thesis by simp
qed

lemma getUser_grows:
  assumes ok: "store_ok w" and g: "getUser e p w = (r, w')"
  shows "store_ok w'" "history_extends w w'" "\<And>u. r = Inr u \<Longrightarrow> u \<in> set (users w') \<and> phoneNumber u = p"
    "next_id w \<le> next_id w'"
proof -
  obtain r1 w1 where f: "findOne e p w = (r1, w1)" by (cases "findOne e p w")
  have u1: "users w1 = users w" "next_id w1 = next_id w"
    using findOne_users [OF f] by auto
  have all: "store_ok w' \<and> history_extends w w' \<and> (\<forall>u. r = Inr u \<longrightarrow> u \<in> set (users w') \<and> phoneNumber u = p)
     \<and> next_id w \<le> next_id w'"
  proof (cases r1)
    case (Inl err)
    then have "w' = w1" using g f by (simp add: getUser_def)
    then show ?thesis using ok u1 g f Inl by (auto simp: store_ok_def history_extends_refl getUser_def)
  next
    case (Inr fo)
    show ?thesis
    proof (cases fo)
      case (Some u)
      then have "w' = w1" "r = Inr u" using g f Inr by (auto simp: getUser_def)
      moreover have "u \<in> set (users w) \<and> phoneNumber u = p"
        using f Inr Some by (auto simp: findOne_def Let_def split: option.splits dest: find_Some_phone)
      ultimately show ?thesis using ok u1 by (auto simp: store_ok_def history_extends_refl)
    next
      case None
      define w2 where "w2 = console_log (''New user detected: '' @ p @ ''. Creating profile.'') w1"
      define nu where "nu = fst (new_User p (''User-'' @ p) w2)"
      define w3 where "w3 = snd (new_User p (''User-'' @ p) w2)"
      have sv: "save_user e nu w3 = (r, w')"
        using g f Inr None by (simp add: getUser_def w2_def nu_def w3_def split_beta Let_def)
      have w3: "users w3 = users w" "next_id w3 = next_id w + 1" "user_id nu = next_id w"
        "phoneNumber nu = p"
        using u1 by (auto simp: w3_def nu_def w2_def new_User_def console_log_def)
      have fresh: "user_id nu \<notin> user_id ` set (users w3)"
        using ok w3 by (auto simp: store_ok_def)
      have nx: "next_id w' = next_id w + 1"
        using sv w3 by (auto simp: save_user_def Let_def split: option.splits if_splits)
      have "users w' = users w \<or>
         (p \<notin> phoneNumber ` set (users w) \<and>
          (\<exists>u'. r = Inr u' \<and> users w' = users w @ [u'] \<and> user_id u' = next_id w \<and>
                phoneNumber u' = p))"
        using sv fresh w3
        by (auto simp: save_user_def Let_def split: option.splits if_splits)
      moreover have "\<forall>u. r = Inr u \<longrightarrow> u \<in> set (users w')"
        using sv fresh by (auto simp: save_user_def Let_def split: option.splits if_splits)
      moreover have "\<forall>u. r = Inr u \<longrightarrow> phoneNumber u = p"
        using sv fresh w3 by (auto simp: save_user_def Let_def split: option.splits if_splits)
      ultimately have cases: "users w' = users w \<or>
         (p \<notin> phoneNumber ` set (users w) \<and>
          (\<exists>u'. users w' = users w @ [u'] \<and> user_id u' = next_id w \<and> phoneNumber u' = p))"
        and res: "\<forall>u. r = Inr u \<longrightarrow> u \<in> set (users w') \<and> phoneNumber u = p"
        by auto
      have "store_ok w'"
        using cases
      proof
        assume "users w' = users w"
        then show ?thesis using ok nx by (auto simp: store_ok_def)
      next
        assume "p \<notin> phoneNumber ` set (users w) \<and>
          (\<exists>u'. users w' = users w @ [u'] \<and> user_id u' = next_id w \<and> phoneNumber u' = p)"
        then obtain u' where a: "p \<notin> phoneNumber ` set (users w)" "users w' = users w @ [u']"
          "user_id u' = next_id w" "phoneNumber u' = p" by blast
        have "user_id u' \<notin> user_id ` set (users w)"
          using ok a(3) by (auto simp: store_ok_def)
        then show ?thesis
          using ok nx a by (auto simp: store_ok_def less_Suc_eq)
      qed
      moreover have "history_extends w w'"
        using cases by (auto simp: history_extends_def)
      ultimately show ?thesis
        using res nx by simp
    qed
  qed
  show "store_ok w'" "history_extends w w'" "\<And>u. r = Inr u \<Longrightarrow> u \<in> set (users w') \<and> phoneNumber u = p"
    "next_id w \<le> next_id w'"
    using all by auto
qed

section \<open>Every operation keeps the store well formed\<close>

lemma console_log_proj [simp]:
  "users (console_log s w) = users w" "next_id (console_log s w) = next_id w"
  "ops (console_log s w) = ops w" "clock (console_log s w) = clock w"
  "trace (console_log s w) = trace w" "timers (console_log s w) = timers w"
  "dirs (console_log s w) = dirs w" "files (console_log s w) = files w"
  "conversations (console_log s w) = conversations w" "uncaught (console_log s w) = uncaught w"
  "console (console_log s w) = console w @ [Log s]"
  by (simp_all add: console_log_def)

lemma console_error_proj [simp]:
  "users (console_error s m w) = users w" "next_id (console_error s m w) = next_id w"
  "ops (console_error s m w) = ops w" "clock (console_error s m w) = clock w"
  "trace (console_error s m w) = trace w" "timers (console_error s m w) = timers w"
  "dirs (console_error s m w) = dirs w" "files (console_error s m w) = files w"
  "conversations (console_error s m w) = conversations w"
  "uncaught (console_error s m w) = uncaught w"
  "console (console_error s m w) = console w @ [LogError s m]"
  by (simp_all add: console_error_def)

lemma setTimeout_proj [simp]:
  "users (setTimeout t d w) = users w" "next_id (setTimeout t d w) = next_id w"
  "ops (setTimeout t d w) = ops w" "clock (setTimeout t d w) = clock w"
  "trace (setTimeout t d w) = trace w" "console (setTimeout t d w) = console w"
  "dirs (setTimeout t d w) = dirs w" "files (setTimeout t d w) = files w"
  "conversations (setTimeout t d w) = conversations w" "uncaught (setTimeout t d w) = uncaught w"
  "timers (setTimeout t d w) = timers w @ [(clock w + d, t)]"
  by (simp_all add: setTimeout_def)

lemma evolves_then_same:
  "evolves w w1 \<Longrightarrow> users w2 = users w1 \<Longrightarrow> next_id w1 \<le> next_id w2 \<Longrightarrow> evolves w w2"
  using evolves_same evolves_trans by blast

lemma getUser_evolves: "getUser e p w = (r, w') \<Longrightarrow> evolves w w'"
  unfolding evolves_def using getUser_grows(1,2) by blast

lemma fetch_recording_store:
  "fetch_recording e rec w = (r, w') \<Longrightarrow> users w' = users w \<and> next_id w' = next_id w"
  by (auto simp: fetch_recording_def Let_def)

lemma mkdirSync_store:
  "mkdirSync e path w = (r, w') \<Longrightarrow> users w' = users w \<and> next_id w' = next_id w"
  by (auto simp: mkdirSync_def Let_def split: option.splits)

lemma writeFileSync_store:
  "writeFileSync e path d w = (r, w') \<Longrightarrow> users w' = users w \<and> next_id w' = next_id w"
  by (auto simp: writeFileSync_def Let_def split: option.splits)

lemma write_recording_store:
  "write_recording e rec d w = (r, w') \<Longrightarrow> users w' = users w \<and> next_id w' = next_id w"
  unfolding write_recording_def Let_def
  by (auto split: sum.splits prod.splits if_splits dest!: mkdirSync_store writeFileSync_store)

lemma append_history_evolves:
  assumes "append_history e p f w = (r, w')" shows "evolves w w'"
  unfolding evolves_def
proof
  assume ok: "store_ok w"
  obtain r1 w1 where g: "getUser e p w = (r1, w1)" by (cases "getUser e p w")
  show "store_ok w' \<and> history_extends w w'"
  proof (cases r1)
    case (Inl err)
    then have "w' = w1" using assms g by (simp add: append_history_def)
    then show ?thesis using getUser_grows(1,2) [OF ok g] by simp
  next
    case (Inr u)
    obtain r2 w2 where s: "save_user e (u\<lparr>callHistory := callHistory u @
        [\<lparr>date = clock w1, transcript = ''Recording saved at '' @ f\<rparr>]\<rparr>) w1 = (r2, w2)"
      by (cases "save_user e (u\<lparr>callHistory := callHistory u @
        [\<lparr>date = clock w1, transcript = ''Recording saved at '' @ f\<rparr>]\<rparr>) w1")
    have "w' = w2" using assms g Inr s by (auto simp: append_history_def Let_def split: sum.splits)
    moreover have a: "store_ok w1" "history_extends w w1" "u \<in> set (users w1)"
      using getUser_grows [OF ok g] Inr by auto
    moreover have "store_ok w2 \<and> history_extends w1 w2"
      using save_user_push [OF a(1) a(3) s] .
    ultimately show ?thesis by (auto intro: history_extends_trans)
  qed
qed

lemma download_and_persist_evolves:
  assumes "download_and_persist e rec p w = (r, w')" shows "evolves w w'"
proof -
  obtain r1 w1 where f: "fetch_recording e rec w = (r1, w1)" by (cases "fetch_recording e rec w")
  have e1: "evolves w w1" using fetch_recording_store [OF f] by (simp add: evolves_same)
  show ?thesis
  proof (cases r1)
    case (Inl err)
    then show ?thesis using assms f e1 by (simp add: download_and_persist_def)
  next
    case (Inr data)
    obtain r2 w2 where wr: "write_recording e rec data w1 = (r2, w2)"
      by (cases "write_recording e rec data w1")
    have e2: "evolves w w2"
      using write_recording_store [OF wr] e1 by (auto intro: evolves_then_same)
    show ?thesis
    proof (cases r2)
      case (Inl err)
      then show ?thesis using assms f Inr wr e2 by (simp add: download_and_persist_def)
    next
      case r2: (Inr fp)
      have "append_history e p fp w2 = (r, w')"
        using assms f Inr wr r2 by (simp add: download_and_persist_def)
      then show ?thesis using e2 append_history_evolves evolves_trans by blast
    qed
  qed
qed

lemma saveRecording_try_evolves:
  assumes "saveRecording_try e c p w = (r, w')" shows "evolves w w'"
proof -
  define w3 where "w3 = (console_log ''Fetching recording...'' w)\<lparr>clock := clock w + 60000\<rparr>
      \<lparr>ops := ops w + 1, trace := trace w @ [RecordingsList (clock w + 60000) c 1]\<rparr>"
  have e3: "evolves w w3" by (simp add: w3_def evolves_same)
  have "w' = console_log ''Fetching recording...'' w \<or> w' = w3 \<or>
     (\<exists>t d. w' = setTimeout t d (console_log ''No recording found. Retrying in 30 seconds...'' w3))
     \<or> (\<exists>rec. download_and_persist e rec p w3 = (r, w'))"
    using assms unfolding saveRecording_try_def Let_def w3_def
    by (auto split: sum.splits if_splits option.splits)
  then show ?thesis
    using e3 by (auto intro: evolves_same evolves_then_same
        evolves_trans [OF _ download_and_persist_evolves])
qed

lemma saveRecording_evolves:
  assumes "saveRecording e c p w = (r, w')" shows "evolves w w'"
proof -
  obtain r1 w1 where t: "saveRecording_try e c p w = (r1, w1)" by (cases "saveRecording_try e c p w")
  have "evolves w1 w'" using assms t
    by (auto simp: saveRecording_def evolves_same split: sum.splits)
  with saveRecording_try_evolves [OF t] show ?thesis by (rule evolves_trans)
qed

lemma createUltravoxCall_store:
  "createUltravoxCall e u w = (r, w') \<Longrightarrow> users w' = users w \<and> next_id w' = next_id w"
  by (auto simp: createUltravoxCall_def Let_def split: http_reply.splits sum.splits)

lemma place_call_store:
  "place_call e j w = (r, w') \<Longrightarrow> users w' = users w \<and> next_id w' = next_id w"
  by (auto simp: place_call_def Let_def split: sum.splits option.splits)

lemma main_try_evolves:
  assumes "main_try e w = (r, w')" shows "evolves w w'"
proof -
  define w1 where "w1 = console_log ''Fetching user profile...'' w"
  obtain r2 w2 where g: "getUser e DESTINATION_PHONE_NUMBER w1 = (r2, w2)"
    by (cases "getUser e DESTINATION_PHONE_NUMBER w1")
  have "evolves w w1" by (simp add: w1_def evolves_same)
  then have e2: "evolves w w2"
    using getUser_evolves [OF g] by (rule evolves_trans)
  show ?thesis
  proof (cases r2)
    case (Inl err)
    then show ?thesis using assms g e2 by (simp add: main_try_def w1_def)
  next
    case (Inr u)
    obtain r4 w4 where c: "createUltravoxCall e u (console_log ''Creating Ultravox call...'' w2) = (r4, w4)"
      by (cases "createUltravoxCall e u (console_log ''Creating Ultravox call...'' w2)")
    have e4: "evolves w w4"
      using createUltravoxCall_store [OF c] e2 by (auto intro: evolves_then_same)
    have "w' = w4 \<or> (\<exists>j l. place_call e j (w4\<lparr>console := l\<rparr>) = (r, w'))"
      using assms g Inr c unfolding main_try_def Let_def w1_def [symmetric]
      by (auto split: settled.splits if_splits)
    then show ?thesis
      using e4 by (auto dest!: place_call_store intro: evolves_then_same)
  qed
qed

lemma main_evolves: "evolves w (main e w)"
proof -
  obtain r w1 where t: "main_try e w = (r, w1)" by (cases "main_try e w")
  have "users (main e w) = users w1 \<and> next_id (main e w) = next_id w1"
    using t by (auto simp: main_def split: settled.splits)
  then show ?thesis using main_try_evolves [OF t] by (auto intro: evolves_then_same)
qed

lemma get_user_evolves: "evolves w (snd (get_user e p w))"
proof -
  obtain r w1 where g: "getUser e p w = (r, w1)" by (cases "getUser e p w")
  then have "snd (get_user e p w) = w1" by (auto simp: get_user_def split: sum.splits)
  then show ?thesis using getUser_evolves [OF g] by simp
qed

lemma new_Conversation_store:
  "new_Conversation e uid t w = (r, w') \<Longrightarrow> users w' = users w \<and> next_id w \<le> next_id w'"
  by (auto simp: new_Conversation_def Let_def split: sum.splits)

lemma save_conversation_store:
  "save_conversation e c w = (r, w') \<Longrightarrow> users w' = users w \<and> next_id w' = next_id w"
  by (auto simp: save_conversation_def Let_def split: option.splits)

lemma findOne_value_store:
  assumes "findOne_value e j w = (r, w')"
  shows "users w' = users w \<and> next_id w' = next_id w \<and>
         (\<forall>u. r = Inr (Some u) \<longrightarrow> u \<in> set (users w))"
proof (cases "\<exists>s. j = JStr s")
  case True
  then show ?thesis
    using assms
    by (auto simp: findOne_value_def findOne_def Let_def split: option.splits
        dest: find_Some_phone)
next
  case False
  then have "findOne_value e j w =
      (case filter_fault e j of
         Some err \<Rightarrow> (Inl err, w)
       | None \<Rightarrow>
           (let w' = w\<lparr>ops := ops w + 1\<rparr> in
            case db_fault e (ops w) of
              Some err \<Rightarrow> (Inl err, w')
            | None \<Rightarrow> (Inr (find (\<lambda>u. filter_match e j (phoneNumber u)) (users w)), w')))"
    by (cases j; hypsubst_thin) (simp_all add: findOne_value_def)
  then show ?thesis
    using assms by (auto simp: Let_def find_Some_iff split: option.splits)
qed

lemma getUser_value_string [simp]: "getUser_value e (JStr s) w = getUser e s w"
  by (simp add: getUser_value_def)

lemma getUser_value_grows:
  assumes ok: "store_ok w" and g: "getUser_value e j w = (r, w')"
  shows "store_ok w' \<and> history_extends w w'"
proof (cases "\<exists>s. j = JStr s")
  case True
  then show ?thesis using getUser_grows(1,2) [OF ok] g by auto
next
  case False
  obtain r1 w1 where f: "findOne_value e j w = (r1, w1)" by (cases "findOne_value e j w")
  note s1 = findOne_value_store [OF f]
  have ok1: "store_ok w1" using ok s1 by (simp add: store_ok_def)
  have unf: "getUser_value e j w =
      (case r1 of
         Inl err \<Rightarrow> (Inl err, w1)
       | Inr (Some u) \<Rightarrow> (Inr u, w1)
       | Inr None \<Rightarrow>
           (let w2 = console_log
                       (''New user detected: '' @ js_String j @ ''. Creating profile.'') w1
            in case castString e j of
                 Inl err \<Rightarrow> (Inl err, w2\<lparr>next_id := next_id w2 + 1\<rparr>)
               | Inr s \<Rightarrow>
                   (let (u, w3) = new_User s (''User-'' @ js_String j) w2
                    in save_user e u w3)))"
    using False f by (cases j; hypsubst_thin) (simp_all add: getUser_value_def)
  show ?thesis
  proof (cases "\<exists>s. r1 = Inr None \<and> castString e j = Inr s")
    case False
    then have "users w' = users w1 \<and> next_id w1 \<le> next_id w'"
      using g unf by (auto simp: Let_def split: sum.splits option.splits)
    then show ?thesis
      using ok s1 evolves_same [of w' w] by (auto simp: evolves_def)
  next
    case True
    then obtain s where r1: "r1 = Inr None" and c: "castString e j = Inr s" by blast
    define w2 where "w2 = console_log
        (''New user detected: '' @ js_String j @ ''. Creating profile.'') w1"
    define nu where "nu = fst (new_User s (''User-'' @ js_String j) w2)"
    define w3 where "w3 = snd (new_User s (''User-'' @ js_String j) w2)"
    have sv: "save_user e nu w3 = (r, w')"
      using g unf r1 c by (simp add: w2_def nu_def w3_def split_beta Let_def)
    have w3: "users w3 = users w" "next_id w3 = next_id w + 1" "user_id nu = next_id w"
      using s1 by (auto simp: w3_def nu_def w2_def new_User_def)
    have fresh: "user_id nu \<notin> user_id ` set (users w3)"
      using ok w3 by (auto simp: store_ok_def)
    have nx: "next_id w' = next_id w + 1"
      using sv w3 by (auto simp: save_user_def Let_def split: option.splits if_splits)
    have cases: "users w' = users w \<or>
         (phoneNumber nu \<notin> phoneNumber ` set (users w) \<and>
          (\<exists>u'. users w' = users w @ [u'] \<and> user_id u' = next_id w \<and>
                phoneNumber u' = phoneNumber nu))"
      using sv fresh w3
      by (auto simp: save_user_def Let_def split: option.splits if_splits)
    have "store_ok w'"
      using cases
    proof
      assume "users w' = users w"
      then show ?thesis using ok nx by (auto simp: store_ok_def)
    next
      assume "phoneNumber nu \<notin> phoneNumber ` set (users w) \<and>
          (\<exists>u'. users w' = users w @ [u'] \<and> user_id u' = next_id w \<and>
                phoneNumber u' = phoneNumber nu)"
      then obtain u' where a: "phoneNumber nu \<notin> phoneNumber ` set (users w)"
        "users w' = users w @ [u']" "user_id u' = next_id w" "phoneNumber u' = phoneNumber nu"
        by blast
      have "user_id u' \<notin> user_id ` set (users w)"
        using ok a(3) by (auto simp: store_ok_def)
      then show ?thesis
        using ok nx a by (auto simp: store_ok_def less_Suc_eq)
    qed
    moreover have "history_extends w w'"
      using cases by (auto simp: history_extends_def)
    ultimately show ?thesis by simp
  qed
qed

lemma conversation_try_evolves:
  assumes "conversation_try e ph t w = (r, w')" shows "evolves w w'"
proof -
  obtain r1 w1 where g: "getUser_value e ph w = (r1, w1)" by (cases "getUser_value e ph w")
  have e1: "evolves w w1"
    using getUser_value_grows [OF _ g] by (simp add: evolves_def)
  show ?thesis
  proof (cases r1)
    case (Inl err)
    then show ?thesis using assms g e1 by (simp add: conversation_try_def)
  next
    case r1: (Inr u)
    obtain r2 w2 where n: "new_Conversation e (user_id u) t w1 = (r2, w2)"
      by (cases "new_Conversation e (user_id u) t w1")
    have e2: "evolves w w2"
      using new_Conversation_store [OF n] e1 by (auto intro: evolves_then_same)
    have "w' = w2 \<or> (\<exists>c. save_conversation e c w2 = (r, w'))"
      using assms g r1 n by (auto simp: conversation_try_def split: sum.splits)
    then show ?thesis
      using e2 by (auto dest!: save_conversation_store intro: evolves_then_same)
  qed
qed

lemma post_conversation_evolves: "evolves w (snd (post_conversation e b w))"
proof (cases "\<not> truthy (map_of b ''phoneNumber'') \<or> \<not> truthy (map_of b ''transcript'')")
  case True
  then show ?thesis by (auto simp: post_conversation_def evolves_same)
next
  case False
  then have "snd (post_conversation e b w) =
      snd (conversation_try e (the (map_of b ''phoneNumber'')) (the (map_of b ''transcript'')) w)"
    by (auto simp: post_conversation_def Let_def split: prod.splits sum.splits)
  then show ?thesis
    using conversation_try_evolves [OF surjective_pairing] by simp
qed

lemma run_timer_evolves: "evolves w (run_timer e w)"
proof (cases "next_timer (timers w)")
  case None
  then show ?thesis by (simp add: run_timer_def evolves_same)
next
  case (Some dt)
  obtain due c p where dt: "dt = (due, SaveRecordingTask c p)"
    by (cases dt, rename_tac a b, case_tac b) auto
  define w0 where "w0 = w\<lparr>clock := max (clock w) due,
      timers := remove1 (due, SaveRecordingTask c p) (timers w)\<rparr>"
  have "run_timer e w = snd (saveRecording e c p w0)"
    using Some dt by (simp add: run_timer_def w0_def)
  moreover have "evolves w w0" by (simp add: w0_def evolves_same)
  ultimately show ?thesis
    using saveRecording_evolves [OF surjective_pairing, of w0 e c p] evolves_trans by auto
qed

lemma exec_evolves: "evolves w (exec e a w)"
  by (cases a)
     (simp_all add: exec_def get_user_evolves post_conversation_evolves main_evolves
        run_timer_evolves evolves_same)

lemma store_ok_initial: "store_ok initial"
  by (simp add: store_ok_def initial_def)

lemma reachable_store_ok: "reachable w \<Longrightarrow> store_ok w"
proof (induction rule: reachable.induct)
  case reachable_initial
  show ?case by (rule store_ok_initial)
next
  case (reachable_exec w e a)
  then show ?case using exec_evolves [of w e a] by (simp add: evolves_def)
qed

section \<open>Lookup and creation of users\<close>

lemma find_append:
  "find P (xs @ ys) = (case find P xs of None \<Rightarrow> find P ys | Some x \<Rightarrow> Some x)"
  by (induction xs) auto

lemma reachable_fresh:
  assumes "reachable w" shows "\<forall>u \<in> set (users w). user_id u < next_id w"
  using reachable_store_ok [OF assms] by (simp add: store_ok_def)

text \<open>
  Claim C6. In a reachable state, with the storage layer answering, \<open>getUser\<close> on a
  phone number that no stored user has creates one user, appended to the collection,
  with the name \<open>User-\<close> followed by the number, speech style \<open>neutral\<close>, no
  favourite topics and an empty call history, and returns it; a second call with the
  same number returns that same record and leaves the collection as it is.
\<close>

theorem getUser_creates_once:
  assumes r: "reachable w" and unseen: "p \<notin> phoneNumber ` set (users w)"
    and up: "db_fault e (ops w) = None" "db_fault e (ops w + 1) = None"
      "db_fault e (ops w + 2) = None"
  shows "\<exists>u w'. getUser e p w = (Inr u, w') \<and> users w' = users w @ [u] \<and>
           phoneNumber u = p \<and> name u = ''User-'' @ p \<and>
           preferences u = \<lparr>speechStyle = ''neutral'', favoriteTopics = []\<rparr> \<and>
           callHistory u = [] \<and>
           (\<exists>w''. getUser e p w' = (Inr u, w'') \<and> users w'' = users w')"
proof -
  define u where "u = \<lparr>user_id = next_id w, phoneNumber = p, name = ''User-'' @ p,
                preferences = \<lparr>speechStyle = ''neutral'', favoriteTopics = []\<rparr>,
                callHistory = [], createdAt = clock w, updatedAt = clock w\<rparr>"
  define w' where "w' = w\<lparr>ops := ops w + 2, next_id := next_id w + 1, users := users w @ [u],
              console := console w @ [Log (''New user detected: '' @ p @ ''. Creating profile.'')]\<rparr>"
  have first: "getUser e p w = (Inr u, w')"
    using getUser_created [OF up(1,2) unseen reachable_fresh [OF r]]
    by (simp add: u_def w'_def Let_def)
  have "find (\<lambda>v. phoneNumber v = p) (users w) = None"
    using unseen by (simp add: find_None_phone)
  then have f: "find (\<lambda>v. phoneNumber v = p) (users w') = Some u"
    by (simp add: w'_def u_def find_append)
  have "db_fault e (ops w') = None" using up(3) by (simp add: w'_def)
  then have second: "getUser e p w' = (Inr u, w'\<lparr>ops := ops w' + 1\<rparr>)"
    using f by (rule getUser_found)
  have "users w' = users w @ [u]" by (simp add: w'_def)
  moreover have "phoneNumber u = p \<and> name u = ''User-'' @ p \<and>
      preferences u = \<lparr>speechStyle = ''neutral'', favoriteTopics = []\<rparr> \<and> callHistory u = []"
    by (simp add: u_def)
  ultimately show ?thesis
    using first second by auto
qed

theorem getUser_creates_once_witness:
  "reachable initial \<and> ''+15550123'' \<notin> phoneNumber ` set (users initial) \<and>
   db_fault sample_env (ops initial) = None \<and> db_fault sample_env (ops initial + 1) = None \<and>
   db_fault sample_env (ops initial + 2) = None \<and>
   (\<exists>u w'. getUser sample_env ''+15550123'' initial = (Inr u, w') \<and>
      users w' = users initial @ [u] \<and> phoneNumber u = ''+15550123'' \<and>
      name u = ''User-'' @ ''+15550123'' \<and>
      preferences u = \<lparr>speechStyle = ''neutral'', favoriteTopics = []\<rparr> \<and>
      callHistory u = [] \<and>
      (\<exists>w''. getUser sample_env ''+15550123'' w' = (Inr u, w'') \<and> users w'' = users w'))"
proof -
  have h: "''+15550123'' \<notin> phoneNumber ` set (users initial)"
    "db_fault sample_env (ops initial) = None" "db_fault sample_env (ops initial + 1) = None"
    "db_fault sample_env (ops initial + 2) = None"
    by (simp_all add: initial_def sample_env_def)
  show ?thesis
    using getUser_creates_once [OF reachable_initial h] reachable_initial h by blast
qed

section \<open>The HTTP routes\<close>

lemma getUser_Inl:
  assumes ok: "store_ok w" and g: "getUser e p w = (Inl err, w')"
  shows "db_fault e (ops w) = Some err \<or> db_fault e (ops w + 1) = Some err"
proof (cases "db_fault e (ops w)")
  case (Some x)
  then show ?thesis using g by (simp add: getUser_def findOne_def)
next
  case None
  show ?thesis
  proof (cases "find (\<lambda>u. phoneNumber u = p) (users w)")
    case (Some u)
    then show ?thesis using g None by (simp add: getUser_def findOne_def)
  next
    case nf: None
    then have unseen: "p \<notin> phoneNumber ` set (users w)" by (simp add: find_None_phone)
    have fresh: "next_id w \<notin> user_id ` set (users w)"
      using ok by (auto simp: store_ok_def)
    show ?thesis
      using g None nf unseen fresh
      by (auto simp: getUser_def findOne_def new_User_def save_user_def Let_def
          split: option.splits if_splits)
  qed
qed

lemma getUser_frame:
  "getUser e p w = (r, w') \<Longrightarrow>
     conversations w' = conversations w \<and> clock w' = clock w \<and> timers w' = timers w \<and>
     trace w' = trace w \<and> dirs w' = dirs w \<and> files w' = files w \<and> uncaught w' = uncaught w"
  by (auto simp: getUser_def findOne_def new_User_def save_user_def Let_def
      split: option.splits if_splits)

text \<open>
  Claim C9. \<open>GET /user/:phoneNumber\<close> answers 200 or 500 and nothing else; in a reachable
  state a 500 carries the message of a fault of the storage layer; and for a number no
  stored user has, with the storage layer answering, the answer is 200 with the newly
  created default profile.
\<close>

theorem get_user_never_404:
  "(status (fst (get_user e p w)) = 200 \<or> status (fst (get_user e p w)) = 500) \<and>
   (reachable w \<and> status (fst (get_user e p w)) = 500 \<longrightarrow>
      (\<exists>err. (db_fault e (ops w) = Some err \<or> db_fault e (ops w + 1) = Some err) \<and>
             body (fst (get_user e p w)) = ErrorBody (message err))) \<and>
   (reachable w \<and> p \<notin> phoneNumber ` set (users w) \<and>
    db_fault e (ops w) = None \<and> db_fault e (ops w + 1) = None \<longrightarrow>
      (\<exists>u. fst (get_user e p w) = \<lparr>status = 200, body = UserBody u\<rparr> \<and>
           users (snd (get_user e p w)) = users w @ [u] \<and> phoneNumber u = p \<and>
           name u = ''User-'' @ p \<and>
           preferences u = \<lparr>speechStyle = ''neutral'', favoriteTopics = []\<rparr> \<and>
           callHistory u = []))"
proof (intro conjI impI)
  show "status (fst (get_user e p w)) = 200 \<or> status (fst (get_user e p w)) = 500"
    by (auto simp: get_user_def split: prod.splits sum.splits)
next
  assume a: "reachable w \<and> status (fst (get_user e p w)) = 500"
  obtain r w' where g: "getUser e p w = (r, w')" by (cases "getUser e p w")
  from a g obtain err where r: "r = Inl err"
    by (cases r) (auto simp: get_user_def)
  have "db_fault e (ops w) = Some err \<or> db_fault e (ops w + 1) = Some err"
    using getUser_Inl [OF reachable_store_ok] a g r by blast
  moreover have "body (fst (get_user e p w)) = ErrorBody (message err)"
    using g r by (simp add: get_user_def)
  ultimately show "\<exists>err. (db_fault e (ops w) = Some err \<or> db_fault e (ops w + 1) = Some err) \<and>
             body (fst (get_user e p w)) = ErrorBody (message err)"
    by blast
next
  assume a: "reachable w \<and> p \<notin> phoneNumber ` set (users w) \<and>
    db_fault e (ops w) = None \<and> db_fault e (ops w + 1) = None"
  define u where "u = \<lparr>user_id = next_id w, phoneNumber = p, name = ''User-'' @ p,
                preferences = \<lparr>speechStyle = ''neutral'', favoriteTopics = []\<rparr>,
                callHistory = [], createdAt = clock w, updatedAt = clock w\<rparr>"
  have "\<exists>w'. getUser e p w = (Inr u, w') \<and> users w' = users w @ [u]"
    using getUser_created [of e w p] a reachable_fresh [of w]
    by (simp add: u_def Let_def)
  then have "fst (get_user e p w) = \<lparr>status = 200, body = UserBody u\<rparr> \<and>
      users (snd (get_user e p w)) = users w @ [u]"
    by (auto simp: get_user_def)
  moreover have "phoneNumber u = p \<and> name u = ''User-'' @ p \<and>
      preferences u = \<lparr>speechStyle = ''neutral'', favoriteTopics = []\<rparr> \<and> callHistory u = []"
    by (simp add: u_def)
  ultimately show "\<exists>u. fst (get_user e p w) = \<lparr>status = 200, body = UserBody u\<rparr> \<and>
           users (snd (get_user e p w)) = users w @ [u] \<and> phoneNumber u = p \<and>
           name u = ''User-'' @ p \<and>
           preferences u = \<lparr>speechStyle = ''neutral'', favoriteTopics = []\<rparr> \<and>
           callHistory u = []"
    by blast
qed

theorem get_user_never_404_witness:
  "(status (fst (get_user down_env ''+15550123'' initial)) = 200 \<or>
    status (fst (get_user down_env ''+15550123'' initial)) = 500) \<and>
   (reachable initial \<and> status (fst (get_user down_env ''+15550123'' initial)) = 500) \<and>
   (\<exists>err. (db_fault down_env (ops initial) = Some err \<or>
           db_fault down_env (ops initial + 1) = Some err) \<and>
          body (fst (get_user down_env ''+15550123'' initial)) = ErrorBody (message err)) \<and>
   (reachable initial \<and> ''+15550123'' \<notin> phoneNumber ` set (users initial) \<and>
    db_fault sample_env (ops initial) = None \<and> db_fault sample_env (ops initial + 1) = None) \<and>
   (\<exists>u. fst (get_user sample_env ''+15550123'' initial) = \<lparr>status = 200, body = UserBody u\<rparr> \<and>
        users (snd (get_user sample_env ''+15550123'' initial)) = users initial @ [u] \<and>
        phoneNumber u = ''+15550123'' \<and> name u = ''User-'' @ ''+15550123'' \<and>
        preferences u = \<lparr>speechStyle = ''neutral'', favoriteTopics = []\<rparr> \<and>
        callHistory u = [])"
proof -
  have down: "status (fst (get_user down_env ''+15550123'' initial)) = 500"
    by (simp add: get_user_def getUser_def findOne_def down_env_def sample_env_def initial_def)
  have up: "''+15550123'' \<notin> phoneNumber ` set (users initial)"
    "db_fault sample_env (ops initial) = None" "db_fault sample_env (ops initial + 1) = None"
    by (simp_all add: initial_def sample_env_def)
  show ?thesis
    using get_user_never_404 [of down_env "''+15550123''" initial]
      get_user_never_404 [of sample_env "''+15550123''" initial]
      reachable_initial down up
    by blast
qed


lemma post_conversation_400:
  assumes "\<not> truthy (map_of b ''phoneNumber'') \<or> \<not> truthy (map_of b ''transcript'')"
  shows "post_conversation e b w =
           (\<lparr>status = 400, body = ErrorBody ''Phone number and transcript required.''\<rparr>, w)"
  using assms by (auto simp: post_conversation_def Let_def)

lemma turn_of_json_of_turn [simp]: "turn_of_json (json_of_turn t) = Some t"
  by (cases t)
     (auto simp: turn_of_json_def json_of_turn_def string_field_def date_field_def
       split: option.splits)

lemma those_map_Some: "those (map Some xs) = Some xs"
  by (induction xs) simp_all

lemma turns_of_json_of_turns [simp]: "turns_of_json (json_of_turns ts) = Some ts"
  by (simp add: turns_of_json_def json_of_turns_def comp_def those_map_Some)




text \<open>
  Claim C10. A \<open>phoneNumber\<close> or \<open>transcript\<close> that is present with a falsy value
  (\<open>null\<close>, \<open>false\<close>, \<open>0\<close>, the empty string) is refused like a missing one: the
  answer is 400 and the state, with its conversations, stays as it was. The empty
  string is such a value.
\<close>

theorem post_conversation_rejects_falsy:
  assumes "k = ''phoneNumber'' \<or> k = ''transcript''"
    and "map_of b k = Some j" and "\<not> truthy (Some j)"
  shows "post_conversation e b w =
           (\<lparr>status = 400, body = ErrorBody ''Phone number and transcript required.''\<rparr>, w) \<and>
         conversations (snd (post_conversation e b w)) = conversations w \<and>
         \<not> truthy (Some (JStr []))"
proof -
  have "\<not> truthy (map_of b ''phoneNumber'') \<or> \<not> truthy (map_of b ''transcript'')"
    using assms by auto
  then show ?thesis by (simp add: post_conversation_400)
qed

theorem post_conversation_rejects_falsy_witness:
  "(''phoneNumber'' = ''phoneNumber'' \<or> ''phoneNumber'' = ''transcript'') \<and>
   map_of [(''phoneNumber'', JStr []), (''transcript'', JArr [])] ''phoneNumber'' =
     Some (JStr []) \<and>
   \<not> truthy (Some (JStr [])) \<and>
   post_conversation sample_env [(''phoneNumber'', JStr []), (''transcript'', JArr [])] initial =
     (\<lparr>status = 400, body = ErrorBody ''Phone number and transcript required.''\<rparr>, initial)"
  using post_conversation_rejects_falsy
      [of "''phoneNumber''" "[(''phoneNumber'', JStr []), (''transcript'', JArr [])]"
        "JStr []" sample_env initial]
  by simp

section \<open>The recording acquisition worker\<close>

lemma errors_logged_append [simp]:
  "errors_logged (xs @ ys) = errors_logged xs @ errors_logged ys"
  by (induction xs rule: errors_logged.induct) auto

lemma save_user_frame:
  "save_user e u w = (r, w') \<Longrightarrow>
     conversations w' = conversations w \<and> clock w' = clock w \<and> timers w' = timers w \<and>
     trace w' = trace w \<and> dirs w' = dirs w \<and> files w' = files w \<and> uncaught w' = uncaught w \<and>
     console w' = console w"
  by (auto simp: save_user_def Let_def split: option.splits if_splits)


lemma write_recording_frame:
  "write_recording e rec d w = (r, w') \<Longrightarrow>
     timers w' = timers w \<and> clock w' = clock w \<and> trace w' = trace w \<and>
     errors_logged (console w') = errors_logged (console w)"
  unfolding write_recording_def Let_def
  by (auto simp: mkdirSync_def writeFileSync_def Let_def
      split: sum.splits prod.splits if_splits option.splits)

lemma getUser_console:
  "getUser e p w = (r, w') \<Longrightarrow> errors_logged (console w') = errors_logged (console w)"
  by (auto simp: getUser_def findOne_def new_User_def save_user_def Let_def
      split: option.splits if_splits)

lemma append_history_frame:
  assumes "append_history e p f w = (r, w')"
  shows "timers w' = timers w \<and> clock w' = clock w \<and> trace w' = trace w \<and>
     dirs w' = dirs w \<and> files w' = files w \<and>
     errors_logged (console w') = errors_logged (console w)"
proof -
  obtain r1 w1 where g: "getUser e p w = (r1, w1)" by (cases "getUser e p w")
  note f1 = getUser_frame [OF g] getUser_console [OF g]
  show ?thesis
  proof (cases r1)
    case (Inl err)
    then show ?thesis using assms g f1 by (simp add: append_history_def)
  next
    case (Inr u)
    obtain r2 w2 where s: "save_user e (u\<lparr>callHistory := callHistory u @
        [\<lparr>date = clock w1, transcript = ''Recording saved at '' @ f\<rparr>]\<rparr>) w1 = (r2, w2)"
      by (cases "save_user e (u\<lparr>callHistory := callHistory u @
        [\<lparr>date = clock w1, transcript = ''Recording saved at '' @ f\<rparr>]\<rparr>) w1")
    have "w' = w2" using assms g Inr s by (auto simp: append_history_def Let_def split: sum.splits)
    then show ?thesis using save_user_frame [OF s] f1 by simp
  qed
qed









lemma find_replace:
  assumes "distinct (map phoneNumber us)" "u \<in> set us" "phoneNumber v = phoneNumber u"
  shows "find (\<lambda>z. phoneNumber z = q) (map (\<lambda>z. if z = u then v else z) us) =
           (if q = phoneNumber u then Some v else find (\<lambda>z. phoneNumber z = q) us)"
  using assms
proof (induction us)
  case Nil
  then show ?case by simp
next
  case (Cons a us)
  show ?case
  proof (cases "a = u")
    case True
    then have "u \<notin> set us" using Cons.prems(1) by auto
    then have "map (\<lambda>z. if z = u then v else z) us = us" by (induction us) auto
    then show ?thesis using True Cons.prems by auto
  next
    case False
    then have "u \<in> set us" using Cons.prems(2) by simp
    moreover have "phoneNumber a \<noteq> phoneNumber u"
      using Cons.prems(1) calculation by force
    ultimately show ?thesis using False Cons by auto
  qed
qed

lemma getUser_ok:
  assumes ok: "store_ok w" and up: "\<forall>n. db_fault e n = None"
  shows "\<exists>u w'. getUser e p w = (Inr u, w') \<and> u \<in> set (users w') \<and> phoneNumber u = p \<and>
           store_ok w' \<and> callHistory u = history_of p w \<and>
           (\<forall>q. history_of q w' = history_of q w)"
proof (cases "find (\<lambda>u. phoneNumber u = p) (users w)")
  case (Some u)
  have g: "getUser e p w = (Inr u, w\<lparr>ops := ops w + 1\<rparr>)"
    using getUser_found [of e w p u] up Some by simp
  have "u \<in> set (users w) \<and> phoneNumber u = p" using Some by (rule find_Some_phone)
  then show ?thesis
    using g ok Some by (auto simp: history_of_def store_ok_def)
next
  case None
  then have unseen: "p \<notin> phoneNumber ` set (users w)" by (simp add: find_None_phone)
  define u where "u = \<lparr>user_id = next_id w, phoneNumber = p, name = ''User-'' @ p,
                preferences = \<lparr>speechStyle = ''neutral'', favoriteTopics = []\<rparr>,
                callHistory = [], createdAt = clock w, updatedAt = clock w\<rparr>"
  define w' where "w' = w\<lparr>ops := ops w + 2, next_id := next_id w + 1, users := users w @ [u],
              console := console w @ [Log (''New user detected: '' @ p @ ''. Creating profile.'')]\<rparr>"
  have g: "getUser e p w = (Inr u, w')"
    using getUser_created [of e w p] up unseen ok
    by (simp add: u_def w'_def Let_def store_ok_def)
  have "store_ok w'" using getUser_grows(1) [OF ok g] .
  moreover have "\<forall>q. history_of q w' = history_of q w"
    using None by (auto simp: history_of_def w'_def find_append u_def split: option.splits)
  moreover have "callHistory u = history_of p w"
    using None by (simp add: history_of_def u_def)
  moreover have "u \<in> set (users w') \<and> phoneNumber u = p" by (simp add: w'_def u_def)
  ultimately show ?thesis using g by blast
qed

lemma append_history_ok:
  assumes ok: "store_ok w" and up: "\<forall>n. db_fault e n = None"
  shows "\<exists>w'. append_history e p f w = (Inr (), w') \<and>
           history_of p w' =
             history_of p w @ [\<lparr>date = clock w, transcript = ''Recording saved at '' @ f\<rparr>] \<and>
           (\<forall>q. q \<noteq> p \<longrightarrow> history_of q w' = history_of q w)"
proof -
  obtain u w1 where g: "getUser e p w = (Inr u, w1)" and u: "u \<in> set (users w1)" "phoneNumber u = p"
    and ok1: "store_ok w1" and h: "callHistory u = history_of p w"
    and same: "\<forall>q. history_of q w1 = history_of q w"
    using getUser_ok [OF ok up, of p] by blast
  have c1: "clock w1 = clock w" using getUser_frame [OF g] by simp
  define v where "v = u\<lparr>callHistory := callHistory u @
      [\<lparr>date = clock w, transcript = ''Recording saved at '' @ f\<rparr>], updatedAt := clock w\<rparr>"
  define w2 where "w2 = w1\<lparr>ops := ops w1 + 1,
      users := map (\<lambda>z. if z = u then v else z) (users w1)\<rparr>"
  have d: "distinct (map user_id (users w1))" "distinct (map phoneNumber (users w1))"
    using ok1 by (simp_all add: store_ok_def)
  have idv: "user_id v = user_id u" by (simp add: v_def)
  have sv: "save_user e (u\<lparr>callHistory := callHistory u @
      [\<lparr>date = clock w1, transcript = ''Recording saved at '' @ f\<rparr>]\<rparr>) w1 = (Inr v, w2)"
  proof -
    have "save_user e (u\<lparr>callHistory := callHistory u @
      [\<lparr>date = clock w1, transcript = ''Recording saved at '' @ f\<rparr>]\<rparr>) w1 =
      (Inr v, w1\<lparr>ops := ops w1 + 1,
         users := map (\<lambda>z. if user_id z = user_id u then v else z) (users w1)\<rparr>)"
      using up u(1) by (simp add: save_user_def Let_def v_def c1)
    then show ?thesis
      unfolding w2_def map_replace_by_id [OF d(1) u(1) idv] .
  qed
  have ap: "append_history e p f w = (Inr (), w2)"
    using g sv by (simp add: append_history_def Let_def)
  have fr: "\<And>q. find (\<lambda>z. phoneNumber z = q) (users w2) =
      (if q = p then Some v else find (\<lambda>z. phoneNumber z = q) (users w1))"
    using find_replace [OF d(2) u(1), of v] u(2) by (simp add: w2_def v_def)
  have "history_of p w2 =
      history_of p w @ [\<lparr>date = clock w, transcript = ''Recording saved at '' @ f\<rparr>]"
    using fr [of p] h by (simp add: history_of_def v_def)
  moreover have "\<forall>q. q \<noteq> p \<longrightarrow> history_of q w2 = history_of q w"
    using fr same by (simp add: history_of_def)
  ultimately show ?thesis using ap by blast
qed

lemma write_recording_ok:
  assumes "\<forall>n. fs_fault e n = None"
  shows "\<exists>w'. write_recording e rec d w =
                (Inr (''./recordings/'' @ sid rec @ ''.mp3''), w') \<and>
           ''./recordings'' \<in> set (dirs w') \<and>
           files w' (''./recordings/'' @ sid rec @ ''.mp3'') = Some d \<and>
           users w' = users w \<and> next_id w' = next_id w"
  using assms
  by (auto simp: write_recording_def existsSync_def mkdirSync_def writeFileSync_def Let_def)

text \<open>
  Claim C3. When the client is set up and the poll lists at least one recording, the
  media of the first one is fetched from its \<open>mediaUrl\<close> followed by \<open>.mp3\<close> with
  the account identifier and the token as credentials; with that fetch, the file system
  and the storage layer succeeding, the directory \<open>./recordings\<close> exists afterwards,
  the file named by the identifier of the recording holds the payload, the call history
  of the user with the given phone number has grown by exactly one entry, the note with
  that file path, the other histories are as before, and no error was written.
\<close>

theorem saveRecording_persists:
  assumes r: "reachable w" and client: "twilio_fault e = None"
    and poll: "recordings_list e (ops w) c = Inr (rec # rest)"
    and media: "axios_get e (ops w + 1) (mediaUrl rec @ ''.mp3'')
                  (TWILIO_ACCOUNT_SID e, TWILIO_AUTH_TOKEN e) = Inr data"
    and fs: "\<forall>n. fs_fault e n = None" and db: "\<forall>n. db_fault e n = None"
  shows "trace (snd (saveRecording e c p w)) =
           trace w @ [RecordingsList (clock w + 60000) c 1,
                      AxiosGet (clock w + 60000) (mediaUrl rec @ ''.mp3'')
                        (TWILIO_ACCOUNT_SID e, TWILIO_AUTH_TOKEN e)] \<and>
         ''./recordings'' \<in> set (dirs (snd (saveRecording e c p w))) \<and>
         files (snd (saveRecording e c p w)) (''./recordings/'' @ sid rec @ ''.mp3'') = Some data \<and>
         history_of p (snd (saveRecording e c p w)) =
           history_of p w @
             [\<lparr>date = clock w + 60000,
               transcript = ''Recording saved at '' @ ''./recordings/'' @ sid rec @ ''.mp3''\<rparr>] \<and>
         (\<forall>q. q \<noteq> p \<longrightarrow> history_of q (snd (saveRecording e c p w)) = history_of q w) \<and>
         errors_logged (console (snd (saveRecording e c p w))) = errors_logged (console w)"
proof -
  let ?url = "mediaUrl rec @ ''.mp3''"
  let ?auth = "(TWILIO_ACCOUNT_SID e, TWILIO_AUTH_TOKEN e)"
  let ?path = "''./recordings/'' @ sid rec @ ''.mp3''"
  define w3 where "w3 = (console_log ''Fetching recording...'' w)\<lparr>clock := clock w + 60000\<rparr>
      \<lparr>ops := ops w + 1, trace := trace w @ [RecordingsList (clock w + 60000) c 1]\<rparr>"
  define w4 where "w4 = (console_log (''Downloading recording from: '' @ ?url) w3)
      \<lparr>ops := ops w3 + 1, trace := trace w3 @ [AxiosGet (clock w3) ?url ?auth]\<rparr>"
  have w3: "users w3 = users w" "next_id w3 = next_id w" "clock w3 = clock w + 60000"
    "ops w3 = ops w + 1" "errors_logged (console w3) = errors_logged (console w)"
    "trace w3 = trace w @ [RecordingsList (clock w + 60000) c 1]"
    by (simp_all add: w3_def)
  have try3: "saveRecording_try e c p w = download_and_persist e rec p w3"
    using poll client by (simp add: saveRecording_try_def Let_def w3_def)
  have fetch: "fetch_recording e rec w3 = (Inr data, w4)"
    using media w3(4) by (simp add: fetch_recording_def Let_def w4_def)
  have w4: "users w4 = users w" "next_id w4 = next_id w" "clock w4 = clock w + 60000"
    "errors_logged (console w4) = errors_logged (console w)"
    "trace w4 = trace w @ [RecordingsList (clock w + 60000) c 1,
        AxiosGet (clock w + 60000) ?url ?auth]"
    using w3 by (simp_all add: w4_def)
  obtain w5 where wr: "write_recording e rec data w4 = (Inr ?path, w5)"
    and w5: "''./recordings'' \<in> set (dirs w5)" "files w5 ?path = Some data"
      "users w5 = users w4" "next_id w5 = next_id w4"
    using write_recording_ok [OF fs, of rec data w4] by blast
  note f5 = write_recording_frame [OF wr]
  have "store_ok w" using r by (rule reachable_store_ok)
  then have ok5: "store_ok w5"
    using w5(3,4) w4(1,2) by (simp add: store_ok_def)
  have h5: "\<And>q. history_of q w5 = history_of q w"
    using w5(3) w4(1) by (simp add: history_of_def)
  obtain w6 where ap: "append_history e p ?path w5 = (Inr (), w6)"
    and w6: "history_of p w6 =
        history_of p w5 @ [\<lparr>date = clock w5, transcript = ''Recording saved at '' @ ?path\<rparr>]"
      "\<forall>q. q \<noteq> p \<longrightarrow> history_of q w6 = history_of q w5"
    using append_history_ok [OF ok5 db, of p ?path] by blast
  note f6 = append_history_frame [OF ap]
  have "download_and_persist e rec p w3 = (Inr (), w6)"
    using fetch wr ap by (simp add: download_and_persist_def)
  then have res: "snd (saveRecording e c p w) = w6"
    using try3 by (simp add: saveRecording_def)
  have "trace w6 = trace w @ [RecordingsList (clock w + 60000) c 1,
        AxiosGet (clock w + 60000) ?url ?auth]"
    using f6 f5 w4(5) by simp
  moreover have "''./recordings'' \<in> set (dirs w6)" "files w6 ?path = Some data"
    using f6 w5(1,2) by simp_all
  moreover have "history_of p w6 =
      history_of p w @ [\<lparr>date = clock w + 60000, transcript = ''Recording saved at '' @ ?path\<rparr>]"
    using w6(1) h5 f5 w4(3) by simp
  moreover have "\<forall>q. q \<noteq> p \<longrightarrow> history_of q w6 = history_of q w"
    using w6(2) h5 by simp
  moreover have "errors_logged (console w6) = errors_logged (console w)"
    using f6 f5 w4(4) by simp
  ultimately show ?thesis
    unfolding res by (intro conjI)
qed

theorem saveRecording_persists_witness:
  "reachable initial \<and> twilio_fault ready_env = None \<and>
   recordings_list ready_env (ops initial) ''CA1'' =
     Inr [\<lparr>sid = ''RE1'', mediaUrl = ''https://api.twilio.example/Recordings/RE1''\<rparr>] \<and>
   axios_get ready_env (ops initial + 1) ''https://api.twilio.example/Recordings/RE1.mp3''
     (TWILIO_ACCOUNT_SID ready_env, TWILIO_AUTH_TOKEN ready_env) = Inr [1, 2, 3] \<and>
   (\<forall>n. fs_fault ready_env n = None) \<and> (\<forall>n. db_fault ready_env n = None) \<and>
   trace (snd (saveRecording ready_env ''CA1'' ''+17206035208'' initial)) =
     [RecordingsList 60000 ''CA1'' 1,
      AxiosGet 60000 ''https://api.twilio.example/Recordings/RE1.mp3'' (''AC0'', ''secret'')] \<and>
   ''./recordings'' \<in> set (dirs (snd (saveRecording ready_env ''CA1'' ''+17206035208'' initial))) \<and>
   files (snd (saveRecording ready_env ''CA1'' ''+17206035208'' initial))
     ''./recordings/RE1.mp3'' = Some [1, 2, 3] \<and>
   history_of ''+17206035208'' (snd (saveRecording ready_env ''CA1'' ''+17206035208'' initial)) =
     [\<lparr>date = 60000, transcript = ''Recording saved at ./recordings/RE1.mp3''\<rparr>]"
proof -
  have h: "twilio_fault ready_env = None"
    "recordings_list ready_env (ops initial) ''CA1'' =
      Inr (\<lparr>sid = ''RE1'', mediaUrl = ''https://api.twilio.example/Recordings/RE1''\<rparr> # [])"
    "axios_get ready_env (ops initial + 1)
       (mediaUrl \<lparr>sid = ''RE1'', mediaUrl = ''https://api.twilio.example/Recordings/RE1''\<rparr> @ ''.mp3'')
       (TWILIO_ACCOUNT_SID ready_env, TWILIO_AUTH_TOKEN ready_env) = Inr [1, 2, 3]"
    "\<forall>n. fs_fault ready_env n = None" "\<forall>n. db_fault ready_env n = None"
    by (simp_all add: ready_env_def sample_env_def)
  have i: "trace initial = []" "clock initial = 0" "history_of ''+17206035208'' initial = []"
    "TWILIO_ACCOUNT_SID ready_env = ''AC0''" "TWILIO_AUTH_TOKEN ready_env = ''secret''"
    by (simp_all add: initial_def history_of_def ready_env_def sample_env_def)
  show ?thesis
    using saveRecording_persists [OF reachable_initial h, where p = "''+17206035208''"]
      reachable_initial h
    by (simp add: i)
qed

section \<open>Timing of the polls\<close>

lemma poll_times_append [simp]:
  "poll_times c (xs @ ys) = poll_times c xs @ poll_times c ys"
  by (induction c xs rule: poll_times.induct) auto

lemma next_timer_single [simp]: "next_timer [x] = Some x"
  by (simp add: next_timer_def)

text \<open>
  One firing of the only pending timer when the provider lists nothing: the poll is
  made 60000 ms after the timer was due and the next timer is due 30000 ms after the poll.
\<close>

lemma run_timer_no_recording:
  assumes client: "twilio_fault e = None" and zero: "recordings_list e (ops w) c = Inr []"
    and one: "timers w = [(t, SaveRecordingTask c p)]" and due: "clock w \<le> t"
  shows "timers (run_timer e w) = [(t + 90000, SaveRecordingTask c p)]"
    and "clock (run_timer e w) = t + 60000"
    and "trace (run_timer e w) = trace w @ [RecordingsList (t + 60000) c 1]"
    and "errors_logged (console (run_timer e w)) = errors_logged (console w)"
    and "uncaught (run_timer e w) = uncaught w"
    and "ops (run_timer e w) = ops w + 1"
  using assms
  by (simp_all add: run_timer_def saveRecording_def saveRecording_try_def Let_def max_def)

text \<open>
  Claim C1, as the code has it. With the client set up and one worker pending, while
  the provider lists no recording for the call, every firing of the worker polls once
  and registers the next firing 30 seconds after that poll; the re-entered worker waits
  its 60 seconds again before it polls, so the polls are 90 seconds apart. This goes on
  for any number of firings: after \<open>n\<close> of them there have been \<open>n\<close> polls, one timer
  is pending, and nothing was written to the error console or thrown.
\<close>

theorem saveRecording_retries_forever:
  assumes client: "twilio_fault e = None" and zero: "\<forall>k. recordings_list e k c = Inr []"
    and one: "timers w = [(t, SaveRecordingTask c p)]" and due: "clock w \<le> t"
  shows "timers (run_timers e n w) = [(t + n * 90000, SaveRecordingTask c p)] \<and>
         poll_times c (trace (run_timers e n w)) =
           poll_times c (trace w) @ map (\<lambda>k. t + 60000 + k * 90000) [0..<n] \<and>
         (0 < n \<longrightarrow> fst (hd (timers (run_timers e n w))) =
            last (poll_times c (trace (run_timers e n w))) + 30000) \<and>
         errors_logged (console (run_timers e n w)) = errors_logged (console w) \<and>
         uncaught (run_timers e n w) = uncaught w"
  using one due
proof (induction n arbitrary: w t)
  case 0
  then show ?case by simp
next
  case (Suc n)
  define w1 where "w1 = run_timer e w"
  have z: "recordings_list e (ops w) c = Inr []" using zero by simp
  note st = run_timer_no_recording [OF client z Suc.prems, folded w1_def]
  have due1: "clock w1 \<le> t + 90000" using st(2) by simp
  have run: "run_timers e (Suc n) w = run_timers e n w1"
    by (simp add: w1_def)
  have ih: "timers (run_timers e (Suc n) w) = [(t + 90000 + n * 90000, SaveRecordingTask c p)]"
    "poll_times c (trace (run_timers e (Suc n) w)) =
       poll_times c (trace w1) @ map (\<lambda>k. t + 90000 + 60000 + k * 90000) [0..<n]"
    "errors_logged (console (run_timers e (Suc n) w)) = errors_logged (console w1)"
    "uncaught (run_timers e (Suc n) w) = uncaught w1"
    unfolding run using Suc.IH [OF st(1) due1] by blast+
  have polls: "poll_times c (trace (run_timers e (Suc n) w)) =
      poll_times c (trace w) @ map (\<lambda>k. t + 60000 + k * 90000) [0..<Suc n]"
  proof -
    have "poll_times c (trace (run_timers e (Suc n) w)) =
        poll_times c (trace w) @ [t + 60000] @ map (\<lambda>k. t + 90000 + 60000 + k * 90000) [0..<n]"
      using ih(2) st(3) by simp
    also have "[t + 60000] @ map (\<lambda>k. t + 90000 + 60000 + k * 90000) [0..<n] =
        map (\<lambda>k. t + 60000 + k * 90000) [0..<Suc n]"
      by (simp add: map_upt_Suc del: upt_Suc)
    finally show ?thesis .
  qed
  have tm: "timers (run_timers e (Suc n) w) = [(t + Suc n * 90000, SaveRecordingTask c p)]"
    using ih(1) by simp
  have "last (poll_times c (trace (run_timers e (Suc n) w))) = t + 60000 + n * 90000"
    unfolding polls by simp
  then have gap: "fst (hd (timers (run_timers e (Suc n) w))) =
      last (poll_times c (trace (run_timers e (Suc n) w))) + 30000"
    using tm by simp
  have rest: "errors_logged (console (run_timers e (Suc n) w)) = errors_logged (console w)"
    "uncaught (run_timers e (Suc n) w) = uncaught w"
    using ih(3,4) st(4,5) by simp_all
  show ?case
    using tm polls gap rest by blast
qed

text \<open>The start-up call in the sample environment, evaluated.\<close>

lemmas main_defs = main_def main_try_def place_call_def createUltravoxCall_def getUser_def
  findOne_def new_User_def save_user_def Let_def DESTINATION_PHONE_NUMBER_def

lemma main_sample:
  "timers (main sample_env initial) = [(60000, SaveRecordingTask ''CA1'' ''+17206035208'')]"
  "clock (main sample_env initial) = 0"
  "poll_times ''CA1'' (trace (main sample_env initial)) = []"
  "errors_logged (console (main sample_env initial)) = []"
  "uncaught (main sample_env initial) = []"
  "call_times (trace (main sample_env initial)) = [0]"
  "main_try sample_env initial = (Resolved (), main sample_env initial)"
  by (simp_all add: main_defs sample_env_def sample_parse_def initial_def)

theorem saveRecording_retries_forever_witness:
  "twilio_fault sample_env = None \<and>
   (\<forall>k. recordings_list sample_env k ''CA1'' = Inr []) \<and>
   timers (main sample_env initial) = [(60000, SaveRecordingTask ''CA1'' ''+17206035208'')] \<and>
   clock (main sample_env initial) \<le> 60000 \<and>
   timers (run_timers sample_env 3 (main sample_env initial)) =
     [(330000, SaveRecordingTask ''CA1'' ''+17206035208'')] \<and>
   poll_times ''CA1'' (trace (run_timers sample_env 3 (main sample_env initial))) =
     [120000, 210000, 300000] \<and>
   errors_logged (console (run_timers sample_env 3 (main sample_env initial))) = [] \<and>
   uncaught (run_timers sample_env 3 (main sample_env initial)) = []"
proof -
  have z: "\<forall>k. recordings_list sample_env k ''CA1'' = Inr []"
    and k: "twilio_fault sample_env = None"
    by (simp_all add: sample_env_def)
  note t = main_sample(1)
  have c: "clock (main sample_env initial) \<le> 60000"
    by (simp add: main_sample(2))
  note i = main_sample(3,4,5)
  have m: "map (\<lambda>k. 120000 + k * 90000) [0..<3] = [120000, 210000, 300000::nat]"
    by (simp add: upt_rec)
  show ?thesis
    using saveRecording_retries_forever [OF k z t c, of 3] k z t c
    by (simp add: i m)
qed

text \<open>
  The claim as the specification words it, a second poll 30 seconds after the first,
  fails: with no recording listed, the first two polls of the call placed at time 0 are
  made at 120000 ms and 210000 ms.
\<close>

theorem retry_interval_counterexample:
  "recordings_list sample_env 3 ''CA1'' = Inr [] \<and>
   poll_times ''CA1'' (trace (run_timers sample_env 2 (main sample_env initial))) =
     [120000, 210000] \<and>
   poll_times ''CA1'' (trace (run_timers sample_env 2 (main sample_env initial))) ! 1 \<noteq>
     poll_times ''CA1'' (trace (run_timers sample_env 2 (main sample_env initial))) ! 0 + 30000"
proof -
  define w1 where "w1 = run_timer sample_env (main sample_env initial)"
  have z: "\<And>w. recordings_list sample_env (ops w) ''CA1'' = Inr []"
    and k: "twilio_fault sample_env = None"
    by (simp_all add: sample_env_def)
  have c: "clock (main sample_env initial) \<le> 60000"
    by (simp add: main_sample(2))
  note s1 = run_timer_no_recording [OF k z main_sample(1) c, folded w1_def]
  have c1: "clock w1 \<le> 60000 + 90000" using s1(2) by simp
  note s2 = run_timer_no_recording [OF k z s1(1) c1]
  have "run_timers sample_env 2 (main sample_env initial) = run_timer sample_env w1"
    by (simp add: numeral_2_eq_2 w1_def)
  then have p: "poll_times ''CA1'' (trace (run_timers sample_env 2 (main sample_env initial))) =
     [120000, 210000]"
    using s2(3) s1(3) main_sample(3) by simp
  show ?thesis
    unfolding p by (simp add: sample_env_def)
qed

lemma place_call_resolved:
  assumes "place_call e j w = (Resolved (), w1)"
  shows "\<exists>callSid req. twilio_fault e = None \<and> calls_create e (ops w) req = Inr callSid \<and>
           trace w1 = trace w @ [CallsCreate (clock w) req] \<and>
           timers w1 =
             timers w @ [(clock w + 60000, SaveRecordingTask callSid DESTINATION_PHONE_NUMBER)] \<and>
           clock w1 = clock w"
  using assms by (auto simp: place_call_def Let_def split: sum.splits option.splits)

lemma createUltravoxCall_frame:
  "createUltravoxCall e u w = (r, w') \<Longrightarrow>
     clock w' = clock w \<and> timers w' = timers w \<and> console w' = console w \<and>
     trace w' = trace w @ [UltravoxPost (clock w) (ultravox_request_of e u)] \<and>
     ops w' = ops w + 1"
  by (auto simp: createUltravoxCall_def Let_def split: http_reply.splits sum.splits)

lemma main_try_resolved:
  assumes "main_try e w = (Resolved (), w1)"
  shows "\<exists>j w0. place_call e j w0 = (Resolved (), w1) \<and> clock w0 = clock w \<and>
           timers w0 = timers w"
proof -
  obtain r2 w2 where g: "getUser e DESTINATION_PHONE_NUMBER (console_log ''Fetching user profile...'' w) = (r2, w2)"
    by (cases "getUser e DESTINATION_PHONE_NUMBER (console_log ''Fetching user profile...'' w)")
  note f2 = getUser_frame [OF g]
  from assms g obtain u where r2: "r2 = Inr u"
    by (cases r2) (auto simp: main_try_def)
  obtain r4 w4 where c: "createUltravoxCall e u (console_log ''Creating Ultravox call...'' w2) = (r4, w4)"
    by (cases "createUltravoxCall e u (console_log ''Creating Ultravox call...'' w2)")
  note f4 = createUltravoxCall_frame [OF c]
  from assms g r2 c obtain v where r4: "r4 = Resolved v" and v: "v \<noteq> JNull"
    by (cases r4) (auto simp: main_try_def split: if_splits)
  define j where "j = (case v of JObj kvs \<Rightarrow> map_of kvs ''joinUrl'' | _ \<Rightarrow> None)"
  define w5 where "w5 = w4\<lparr>console := console w4 @ [LogValue ''Got joinUrl:'' j]\<rparr>"
  have "place_call e j w5 = (Resolved (), w1)"
    using assms g r2 c r4 v by (simp add: main_try_def Let_def j_def w5_def)
  moreover have "clock w5 = clock w \<and> timers w5 = timers w"
    using f2 f4 by (simp add: w5_def)
  ultimately show ?thesis by blast
qed

lemma download_and_persist_polls:
  assumes "download_and_persist e rec p w = (r, w')"
  shows "poll_times c (trace w') = poll_times c (trace w)"
proof -
  obtain r1 w1 where f: "fetch_recording e rec w = (r1, w1)" by (cases "fetch_recording e rec w")
  have p1: "poll_times c (trace w1) = poll_times c (trace w)"
    using f by (auto simp: fetch_recording_def Let_def)
  show ?thesis
  proof (cases r1)
    case (Inl err)
    then show ?thesis using assms f p1 by (simp add: download_and_persist_def)
  next
    case (Inr data)
    obtain r2 w2 where wr: "write_recording e rec data w1 = (r2, w2)"
      by (cases "write_recording e rec data w1")
    note f2 = write_recording_frame [OF wr]
    show ?thesis
    proof (cases r2)
      case (Inl err)
      then show ?thesis using assms f Inr wr p1 f2 by (simp add: download_and_persist_def)
    next
      case r2: (Inr fp)
      have "append_history e p fp w2 = (r, w')"
        using assms f Inr wr r2 by (simp add: download_and_persist_def)
      then show ?thesis using append_history_frame [of e p fp w2 r w'] p1 f2 by simp
    qed
  qed
qed

text \<open>Every run of the worker polls once, 60000 ms after it was entered.\<close>

lemma saveRecording_polls:
  assumes client: "twilio_fault e = None"
  shows "poll_times c (trace (snd (saveRecording e c p w))) =
     poll_times c (trace w) @ [clock w + 60000]"
proof -
  define w3 where "w3 = (console_log ''Fetching recording...'' w)\<lparr>clock := clock w + 60000\<rparr>
      \<lparr>ops := ops w + 1, trace := trace w @ [RecordingsList (clock w + 60000) c 1]\<rparr>"
  have p3: "poll_times c (trace w3) = poll_times c (trace w) @ [clock w + 60000]"
    by (simp add: w3_def)
  obtain r w' where t: "saveRecording_try e c p w = (r, w')"
    by (cases "saveRecording_try e c p w")
  have "w' = w3 \<or> w' = setTimeout (SaveRecordingTask c p) 30000
           (console_log ''No recording found. Retrying in 30 seconds...'' w3)
     \<or> (\<exists>rec. download_and_persist e rec p w3 = (r, w'))"
    using t client unfolding saveRecording_try_def Let_def w3_def
    by (auto split: sum.splits if_splits)
  then have "poll_times c (trace w') = poll_times c (trace w3)"
    by (auto dest: download_and_persist_polls)
  moreover have "trace (snd (saveRecording e c p w)) = trace w'"
    using t by (simp add: saveRecording_def split: sum.splits)
  ultimately show ?thesis using p3 by simp
qed

text \<open>
  Claim C2, as the code has it. When \<open>main\<close> has originated a call, at the time of its
  clock and with no other timer pending, the worker is registered to start 60 seconds
  later, and the worker waits another 60 seconds before it polls: the first poll for the
  call is made 120 seconds after the call was placed.
\<close>

theorem first_poll_after_two_delays:
  assumes placed: "main_try e w = (Resolved (), w1)" and idle: "timers w = []"
  shows "\<exists>callSid req evs.
           trace w1 = evs @ [CallsCreate (clock w) req] \<and>
           timers w1 = [(clock w + 60000, SaveRecordingTask callSid DESTINATION_PHONE_NUMBER)] \<and>
           poll_times callSid (trace (run_timer e w1)) =
             poll_times callSid (trace w1) @ [clock w + 60000 + 60000]"
proof -
  obtain j w0 where pc: "place_call e j w0 = (Resolved (), w1)"
    and w0: "clock w0 = clock w" "timers w0 = timers w"
    using main_try_resolved [OF placed] by blast
  obtain callSid req where client: "twilio_fault e = None"
    and tr: "trace w1 = trace w0 @ [CallsCreate (clock w0) req]"
    and tm: "timers w1 =
      timers w0 @ [(clock w0 + 60000, SaveRecordingTask callSid DESTINATION_PHONE_NUMBER)]"
    and ck: "clock w1 = clock w0"
    using place_call_resolved [OF pc] by blast
  have tm1: "timers w1 = [(clock w + 60000, SaveRecordingTask callSid DESTINATION_PHONE_NUMBER)]"
    using tm w0 idle by simp
  define w2 where "w2 = w1\<lparr>clock := clock w + 60000, timers := []\<rparr>"
  have "run_timer e w1 = snd (saveRecording e callSid DESTINATION_PHONE_NUMBER w2)"
    using tm1 ck w0 by (simp add: run_timer_def w2_def max_def)
  then have "poll_times callSid (trace (run_timer e w1)) =
      poll_times callSid (trace w1) @ [clock w + 60000 + 60000]"
    using saveRecording_polls [OF client, of callSid DESTINATION_PHONE_NUMBER w2]
    by (simp add: w2_def)
  moreover have "trace w1 = trace w0 @ [CallsCreate (clock w) req]"
    using tr w0 by simp
  ultimately show ?thesis using tm1 by (intro exI conjI)
qed

theorem first_poll_after_two_delays_witness:
  "main_try sample_env initial = (Resolved (), main sample_env initial) \<and>
   timers initial = [] \<and>
   (\<exists>callSid req evs.
      trace (main sample_env initial) = evs @ [CallsCreate (clock initial) req] \<and>
      timers (main sample_env initial) =
        [(clock initial + 60000, SaveRecordingTask callSid DESTINATION_PHONE_NUMBER)] \<and>
      poll_times callSid (trace (run_timer sample_env (main sample_env initial))) =
        poll_times callSid (trace (main sample_env initial)) @ [clock initial + 60000 + 60000])"
proof -
  have i: "timers initial = []" by (simp add: initial_def)
  show ?thesis
    using first_poll_after_two_delays [OF main_sample(7) i] main_sample(7) i by blast
qed

text \<open>
  The claim as the specification words it, a first poll 60 seconds after the call was
  placed, fails: the call placed at time 0 is first polled for at 120000 ms.
\<close>

theorem first_poll_counterexample:
  "call_times (trace (main sample_env initial)) = [0] \<and>
   poll_times ''CA1'' (trace (run_timer sample_env (main sample_env initial))) = [120000] \<and>
   hd (poll_times ''CA1'' (trace (run_timer sample_env (main sample_env initial)))) \<noteq>
     hd (call_times (trace (main sample_env initial))) + 60000"
proof -
  have z: "recordings_list sample_env (ops (main sample_env initial)) ''CA1'' = Inr []"
    and k: "twilio_fault sample_env = None"
    by (simp_all add: sample_env_def)
  have c: "clock (main sample_env initial) \<le> 60000"
    by (simp add: main_sample(2))
  have "poll_times ''CA1'' (trace (run_timer sample_env (main sample_env initial))) = [120000]"
    using run_timer_no_recording(3) [OF k z main_sample(1) c] main_sample(3) by simp
  then show ?thesis by (simp add: main_sample(6))
qed

section \<open>The voice-session initiator\<close>

lemma calls_placed_append [simp]:
  "calls_placed (xs @ ys) = calls_placed xs @ calls_placed ys"
  by (induction xs rule: calls_placed.induct) auto

lemma main_aborts:
  assumes g: "getUser e DESTINATION_PHONE_NUMBER (console_log ''Fetching user profile...'' w) =
                (Inr u, w2)"
    and off: "ultravox_reply e (ops w2) (ultravox_request_of e u) = TransportError err"
  shows "errors_logged (console (main e w)) =
           errors_logged (console w) @ [(''Main execution failed:'', message err)]"
    and "calls_placed (trace (main e w)) = calls_placed (trace w)"
    and "timers (main e w) = timers w"
proof -
  define w4 where "w4 = (console_log ''Creating Ultravox call...'' w2)
      \<lparr>ops := ops w2 + 1,
       trace := trace w2 @ [UltravoxPost (clock w2) (ultravox_request_of e u)]\<rparr>"
  have c: "createUltravoxCall e u (console_log ''Creating Ultravox call...'' w2) =
      (Rejected err, w4)"
    using off by (simp add: createUltravoxCall_def Let_def w4_def)
  have m: "main e w = console_error ''Main execution failed:'' (message err) w4"
    using g c by (simp add: main_def main_try_def Let_def)
  note f = getUser_frame [OF g] getUser_console [OF g]
  show "errors_logged (console (main e w)) =
           errors_logged (console w) @ [(''Main execution failed:'', message err)]"
    using f by (simp add: m w4_def)
  show "calls_placed (trace (main e w)) = calls_placed (trace w)"
    using f by (simp add: m w4_def)
  show "timers (main e w) = timers w"
    using f by (simp add: m w4_def)
qed

text \<open>
  Claim C5, as the code has it. \<open>createUltravoxCall\<close> fails, by rejecting with the
  error, whenever the request ends in a transport error. The status of a response is
  not looked at: a response whose body is JSON is no failure, and the call resolves with
  the parsed value whatever the status. When the call is rejected in \<open>main\<close>, the
  error is written to the console, no call is originated and no worker is registered:
  the flow ends there, with no retry. Nothing is said here of a body that is not JSON.
\<close>

theorem createUltravoxCall_rejects_on_transport_error:
  "(ultravox_reply e (ops w) (ultravox_request_of e u) = TransportError err \<longrightarrow>
      fst (createUltravoxCall e u w) = Rejected err) \<and>
   (ultravox_reply e (ops w) (ultravox_request_of e u) = HttpResponse code data \<and>
    JSON_parse e data = Inr v \<longrightarrow>
      fst (createUltravoxCall e u w) = Resolved v) \<and>
   (getUser e DESTINATION_PHONE_NUMBER (console_log ''Fetching user profile...'' w0) =
      (Inr u0, w2) \<and>
    ultravox_reply e (ops w2) (ultravox_request_of e u0) = TransportError err0 \<longrightarrow>
      errors_logged (console (main e w0)) =
        errors_logged (console w0) @ [(''Main execution failed:'', message err0)] \<and>
      calls_placed (trace (main e w0)) = calls_placed (trace w0) \<and>
      timers (main e w0) = timers w0)"
proof (intro conjI impI)
  assume "ultravox_reply e (ops w) (ultravox_request_of e u) = TransportError err"
  then show "fst (createUltravoxCall e u w) = Rejected err"
    by (simp add: createUltravoxCall_def Let_def)
next
  assume "ultravox_reply e (ops w) (ultravox_request_of e u) = HttpResponse code data \<and>
    JSON_parse e data = Inr v"
  then show "fst (createUltravoxCall e u w) = Resolved v"
    by (simp add: createUltravoxCall_def Let_def)
next
  assume a: "getUser e DESTINATION_PHONE_NUMBER (console_log ''Fetching user profile...'' w0) =
      (Inr u0, w2) \<and>
    ultravox_reply e (ops w2) (ultravox_request_of e u0) = TransportError err0"
  then have g: "getUser e DESTINATION_PHONE_NUMBER (console_log ''Fetching user profile...'' w0) =
      (Inr u0, w2)"
    and off: "ultravox_reply e (ops w2) (ultravox_request_of e u0) = TransportError err0"
    by simp_all
  show "errors_logged (console (main e w0)) =
        errors_logged (console w0) @ [(''Main execution failed:'', message err0)]"
    "calls_placed (trace (main e w0)) = calls_placed (trace w0)"
    "timers (main e w0) = timers w0"
    using main_aborts [OF g off] by simp_all
qed

theorem createUltravoxCall_rejects_on_transport_error_witness:
  "fst (createUltravoxCall offline_env
          \<lparr>user_id = 0, phoneNumber = ''+17206035208'', name = ''User-+17206035208'',
            preferences = \<lparr>speechStyle = ''neutral'', favoriteTopics = []\<rparr>,
            callHistory = [], createdAt = 0, updatedAt = 0\<rparr> initial) =
     Rejected (Error ''connect ECONNREFUSED'') \<and>
   (ultravox_reply denied_env (ops initial)
      (ultravox_request_of denied_env
         \<lparr>user_id = 0, phoneNumber = ''+17206035208'', name = ''User-+17206035208'',
           preferences = \<lparr>speechStyle = ''neutral'', favoriteTopics = []\<rparr>,
           callHistory = [], createdAt = 0, updatedAt = 0\<rparr>) = HttpResponse 401 denied_body \<and>
    JSON_parse denied_env denied_body = Inr (JObj [(''detail'', JStr ''Invalid API key'')])) \<and>
   fst (createUltravoxCall denied_env
          \<lparr>user_id = 0, phoneNumber = ''+17206035208'', name = ''User-+17206035208'',
            preferences = \<lparr>speechStyle = ''neutral'', favoriteTopics = []\<rparr>,
            callHistory = [], createdAt = 0, updatedAt = 0\<rparr> initial) =
     Resolved (JObj [(''detail'', JStr ''Invalid API key'')]) \<and>
   (getUser offline_env DESTINATION_PHONE_NUMBER
      (console_log ''Fetching user profile...'' initial) =
      (Inr \<lparr>user_id = 0, phoneNumber = ''+17206035208'', name = ''User-+17206035208'',
             preferences = \<lparr>speechStyle = ''neutral'', favoriteTopics = []\<rparr>,
             callHistory = [], createdAt = 0, updatedAt = 0\<rparr>,
       snd (getUser offline_env DESTINATION_PHONE_NUMBER
              (console_log ''Fetching user profile...'' initial))) \<and>
    ultravox_reply offline_env
      (ops (snd (getUser offline_env DESTINATION_PHONE_NUMBER
                   (console_log ''Fetching user profile...'' initial))))
      (ultravox_request_of offline_env
         \<lparr>user_id = 0, phoneNumber = ''+17206035208'', name = ''User-+17206035208'',
           preferences = \<lparr>speechStyle = ''neutral'', favoriteTopics = []\<rparr>,
           callHistory = [], createdAt = 0, updatedAt = 0\<rparr>) =
      TransportError (Error ''connect ECONNREFUSED'')) \<and>
   errors_logged (console (main offline_env initial)) =
     [(''Main execution failed:'', ''connect ECONNREFUSED'')] \<and>
   calls_placed (trace (main offline_env initial)) = [] \<and>
   timers (main offline_env initial) = []"
proof -
  let ?u = "\<lparr>user_id = 0, phoneNumber = ''+17206035208'', name = ''User-+17206035208'',
            preferences = \<lparr>speechStyle = ''neutral'', favoriteTopics = []\<rparr>,
            callHistory = [], createdAt = 0, updatedAt = 0\<rparr>"
  let ?w2 = "snd (getUser offline_env DESTINATION_PHONE_NUMBER
              (console_log ''Fetching user profile...'' initial))"
  have off: "\<And>n r. ultravox_reply offline_env n r = TransportError (Error ''connect ECONNREFUSED'')"
    by (simp add: offline_env_def)
  have den: "ultravox_reply denied_env (ops initial) (ultravox_request_of denied_env ?u) =
      HttpResponse 401 denied_body \<and>
    JSON_parse denied_env denied_body = Inr (JObj [(''detail'', JStr ''Invalid API key'')])"
    by (simp add: denied_env_def sample_env_def sample_parse_def denied_body_def join_body_def)
  have g: "getUser offline_env DESTINATION_PHONE_NUMBER
      (console_log ''Fetching user profile...'' initial) = (Inr ?u, ?w2)"
    by (simp add: getUser_def findOne_def new_User_def save_user_def Let_def
        DESTINATION_PHONE_NUMBER_def offline_env_def sample_env_def initial_def)
  have i: "errors_logged (console initial) = []" "calls_placed (trace initial) = []"
    "timers initial = []"
    by (simp_all add: initial_def)
  show ?thesis
    using createUltravoxCall_rejects_on_transport_error
        [where e = offline_env and u = ?u and w = initial
          and err = "Error ''connect ECONNREFUSED''" and w0 = initial and ?u0.0 = ?u
          and ?w2.0 = ?w2 and ?err0.0 = "Error ''connect ECONNREFUSED''"]
      createUltravoxCall_rejects_on_transport_error
        [where e = denied_env and u = ?u and w = initial and code = 401
          and data = denied_body and v = "JObj [(''detail'', JStr ''Invalid API key'')]"]
      off den g
    by (simp add: i)
qed

text \<open>
  The claim as the specification words it fails on a refusal: the provider answers 401
  with a JSON body, \<open>createUltravoxCall\<close> resolves, no error is written, and \<open>main\<close>
  goes on to originate the call, streaming to the text \<open>undefined\<close>, and to register
  the worker.
\<close>

theorem non_success_response_counterexample:
  "ultravox_reply denied_env 2
     (ultravox_request_of denied_env
        \<lparr>user_id = 0, phoneNumber = ''+17206035208'', name = ''User-+17206035208'',
          preferences = \<lparr>speechStyle = ''neutral'', favoriteTopics = []\<rparr>,
          callHistory = [], createdAt = 0, updatedAt = 0\<rparr>) = HttpResponse 401 denied_body \<and>
   errors_logged (console (main denied_env initial)) = [] \<and>
   map twiml (calls_placed (trace (main denied_env initial))) =
     [''<Response><Connect><Stream url='' @ [CHR 0x22] @ ''undefined'' @ [CHR 0x22] @
      ''/></Connect></Response>''] \<and>
   timers (main denied_env initial) = [(60000, SaveRecordingTask ''CA1'' ''+17206035208'')]"
  by (simp add: main_defs denied_env_def sample_env_def sample_parse_def denied_body_def
      join_body_def initial_def template_def)

section \<open>The invariant of the store\<close>



end
